theory Spec2Isabelle
  imports Complex_Main
begin

section \<open>GIF Duel: the vote-tallying reducer, the pool cache and the pairing helper\<close>

text \<open>
  A shallow embedding of \<^verbatim>\<open>src/GifVote.tsx\<close>. JavaScript numbers that hold
  counters (round, score cells, pool count, time stamps) are modelled as unbounded
  integers; \<^verbatim>\<open>null\<close> is \<open>None\<close>.
\<close>

subsection \<open>JavaScript strings\<close>

text \<open>
  A string is the list of its UTF-16 code units, each a number below 65536.
  \<open>ascii\<close> writes a string of ASCII characters.
\<close>

type_synonym jsstring = "nat list"

definition ascii :: "string \<Rightarrow> jsstring" where
  "ascii s = map of_char s"

subsection \<open>Types\<close>

datatype VoteType = Like | Funny

datatype Side = SLeft | SRight

text \<open>The field \<^verbatim>\<open>id\<close> of the source is called \<open>gif_id\<close> here.\<close>

record GifItem =
  gif_id :: jsstring
  title :: jsstring
  displayUrl :: jsstring

text \<open>
  \<open>GameState\<close> has fields \<^verbatim>\<open>round\<close> and \<^verbatim>\<open>theme\<close> too, so the two
  fields of a vote record carry the suffix \<open>_v\<close>, and the round of the state is \<open>round_s\<close>.
\<close>

record VoteRecord =
  round_v :: int
  theme_v :: jsstring
  voteType :: VoteType
  winnerSide :: Side
  leftId :: jsstring
  rightId :: jsstring
  ts :: int

record SideScore =
  left :: int
  right :: int

record Score =
  like :: SideScore
  funny :: SideScore

record GameState =
  theme :: jsstring
  round_s :: int
  leftGif :: "GifItem option"
  rightGif :: "GifItem option"
  poolCount :: int
  score :: Score
  history :: "VoteRecord list"
  isLoading :: bool
  error :: "jsstring option"

datatype Action =
    SET_THEME jsstring
  | LOAD_PAIR_START
  | LOAD_PAIR_SUCCESS GifItem GifItem int
  | LOAD_PAIR_ERROR jsstring
  | VOTE VoteType Side
  | UNDO_LAST_VOTE
  | RESET_RUN

subsection \<open>Initial state\<close>

definition zeroScore :: Score where
  "zeroScore = \<lparr>like = \<lparr>left = 0, right = 0\<rparr>, funny = \<lparr>left = 0, right = 0\<rparr>\<rparr>"

definition initialState :: GameState where
  "initialState =
     \<lparr>theme = (ascii ''cats''), round_s = 1, leftGif = None, rightGif = None, poolCount = 0,
      score = zeroScore, history = [], isLoading = False, error = None\<rparr>"

subsection \<open>Reducer\<close>

text \<open>
  \<^verbatim>\<open>obj[side]\<close> and \<^verbatim>\<open>obj[side] = v\<close> on a \<^verbatim>\<open>{ left, right }\<close> object.
\<close>

fun getSide :: "SideScore \<Rightarrow> Side \<Rightarrow> int" where
  "getSide c SLeft = left c"
| "getSide c SRight = right c"

fun setSide :: "SideScore \<Rightarrow> Side \<Rightarrow> int \<Rightarrow> SideScore" where
  "setSide c SLeft v = c\<lparr>left := v\<rparr>"
| "setSide c SRight v = c\<lparr>right := v\<rparr>"

text \<open>
  The reducer. Its first argument is the value \<^verbatim>\<open>Date.now()\<close> returns when the
  action is reduced; only \<open>VOTE\<close> reads it.
\<close>

fun gameReducer :: "int \<Rightarrow> GameState \<Rightarrow> Action \<Rightarrow> GameState" where
  "gameReducer now state (SET_THEME th) =
     state\<lparr>theme := th, round_s := 1, leftGif := None, rightGif := None, poolCount := 0,
           score := zeroScore, history := [], error := None\<rparr>"
| "gameReducer now state LOAD_PAIR_START = state\<lparr>isLoading := True, error := None\<rparr>"
| "gameReducer now state (LOAD_PAIR_SUCCESS l r n) =
     state\<lparr>isLoading := False, error := None, leftGif := Some l, rightGif := Some r,
           poolCount := n\<rparr>"
| "gameReducer now state (LOAD_PAIR_ERROR msg) = state\<lparr>isLoading := False, error := Some msg\<rparr>"
| "gameReducer now state (VOTE vt side) =
     (case (leftGif state, rightGif state) of
        (Some l, Some r) \<Rightarrow>
          let nextScore =
                (if vt = Like
                 then (score state)\<lparr>like := setSide (like (score state)) side
                                               (getSide (like (score state)) side + 1)\<rparr>
                 else (score state)\<lparr>funny := setSide (funny (score state)) side
                                                (getSide (funny (score state)) side + 1)\<rparr>);
              record = \<lparr>round_v = round_s state, theme_v = theme state, voteType = vt,
                        winnerSide = side, leftId = gif_id l, rightId = gif_id r, ts = now\<rparr>
          in state\<lparr>score := nextScore, history := record # history state,
                   round_s := round_s state + 1\<rparr>
      | _ \<Rightarrow> state)"
| "gameReducer now state UNDO_LAST_VOTE =
     (case history state of
        [] \<Rightarrow> state
      | last_v # rest \<Rightarrow>
          let nextScore =
                (if voteType last_v = Like
                 then (score state)\<lparr>like := setSide (like (score state)) (winnerSide last_v)
                         (max 0 (getSide (like (score state)) (winnerSide last_v) - 1))\<rparr>
                 else (score state)\<lparr>funny := setSide (funny (score state)) (winnerSide last_v)
                         (max 0 (getSide (funny (score state)) (winnerSide last_v) - 1))\<rparr>)
          in state\<lparr>score := nextScore, history := rest,
                   round_s := max 1 (round_s state - 1)\<rparr>)"
| "gameReducer now state RESET_RUN =
     state\<lparr>round_s := 1, leftGif := None, rightGif := None, poolCount := 0,
           score := zeroScore, history := [], error := None\<rparr>"

text \<open>\<^verbatim>\<open>score[t][s]\<close>.\<close>

fun cell :: "Score \<Rightarrow> VoteType \<Rightarrow> Side \<Rightarrow> int" where
  "cell sc Like s = getSide (like sc) s"
| "cell sc Funny s = getSide (funny sc) s"

text \<open>The number of records of a history with a given vote type and winner side.\<close>

definition tally :: "VoteRecord list \<Rightarrow> VoteType \<Rightarrow> Side \<Rightarrow> int" where
  "tally h t s = int (length (filter (\<lambda>r. voteType r = t \<and> winnerSide r = s) h))"

text \<open>
  A sequence of dispatched actions, each with the clock reading at its reduction, applied
  from left to right.
\<close>

fun dispatchAll :: "GameState \<Rightarrow> (int \<times> Action) list \<Rightarrow> GameState" where
  "dispatchAll state [] = state"
| "dispatchAll state ((now, a) # rest) = dispatchAll (gameReducer now state a) rest"

text \<open>The provider's helpers that only dispatch one action.\<close>

definition undo :: "int \<Rightarrow> GameState \<Rightarrow> GameState" where
  "undo now state = gameReducer now state UNDO_LAST_VOTE"

subsection \<open>Trimming\<close>

text \<open>
  \<^verbatim>\<open>String.prototype.trim\<close> removes white space and line terminators from both
  ends. These are, by the ECMAScript definition: tab, line feed, vertical tab, form feed,
  carriage return, space, U+00A0, U+1680, U+2000 to U+200A, U+2028, U+2029, U+202F,
  U+205F, U+3000 and U+FEFF.
\<close>

definition isSpace :: "nat \<Rightarrow> bool" where
  "isSpace c =
     (c \<in> {9, 10, 11, 12, 13, 32, 160, 5760, 8232, 8233, 8239, 8287, 12288, 65279} \<or>
      (8192 \<le> c \<and> c \<le> 8202))"

definition trim :: "jsstring \<Rightarrow> jsstring" where
  "trim s = rev (dropWhile isSpace (rev (dropWhile isSpace s)))"

text \<open>A number in a template literal: its decimal digits.\<close>

fun showNat :: "nat \<Rightarrow> jsstring" where
  "showNat n = (if n < 10 then [48 + n] else showNat (n div 10) @ [48 + n mod 10])"

declare showNat.simps [simp del]

text \<open>\<^verbatim>\<open>setTheme\<close>: \<^verbatim>\<open>theme.trim() || "cats"\<close>, dispatched as \<open>SET_THEME\<close>.\<close>

definition setTheme :: "int \<Rightarrow> jsstring \<Rightarrow> GameState \<Rightarrow> GameState" where
  "setTheme now th state =
     gameReducer now state (SET_THEME (if trim th = [] then (ascii ''cats'') else trim th))"

subsection \<open>GIPHY helpers\<close>

text \<open>
  A raw record of the search response, reduced to the properties \<^verbatim>\<open>normalizeGif\<close>
  reads; \<open>None\<close> is a property that is absent (or \<^verbatim>\<open>null\<close>).
\<close>

record RawGif =
  raw_id :: "jsstring option"
  raw_title :: "jsstring option"
  fixed_width_url :: "jsstring option"
  downsized_url :: "jsstring option"
  original_url :: "jsstring option"

text \<open>\<^verbatim>\<open>a || b\<close> on an optional jsstring: the empty jsstring is falsy.\<close>

fun jsOr :: "jsstring option \<Rightarrow> jsstring \<Rightarrow> jsstring" where
  "jsOr None d = d"
| "jsOr (Some u) d = (if u = [] then d else u)"

text \<open>
  The first argument is the jsstring \<^verbatim>\<open>crypto.randomUUID()\<close> returns when the raw record
  has no id.
\<close>

definition normalizeGif :: "jsstring \<Rightarrow> RawGif \<Rightarrow> GifItem" where
  "normalizeGif uuid raw =
     (let url = jsOr (fixed_width_url raw) (jsOr (downsized_url raw) (jsOr (original_url raw) [])) in
      \<lparr>gif_id = (case raw_id raw of Some i \<Rightarrow> i | None \<Rightarrow> uuid),
       title = (case raw_title raw of Some t \<Rightarrow> t | None \<Rightarrow> (ascii ''Untitled'')),
       displayUrl = url\<rparr>)"

text \<open>
  A value of \<^verbatim>\<open>Math.random()\<close>: a number that is at least 0 and less than 1.
  The arithmetic on it is exact.
\<close>

typedef draw = "{r :: real. 0 \<le> r \<and> r < 1}"
  by (rule exI [of _ 0]) simp

setup_lifting type_definition_draw

lift_definition randomInt :: "int \<Rightarrow> int \<Rightarrow> draw \<Rightarrow> int" is
  "\<lambda>mn mx r. \<lfloor>r * of_int (mx - mn)\<rfloor> + mn" .

lift_definition drawZero :: draw is "0"
  by simp

lift_definition drawHalf :: draw is "1 / 2"
  by simp

text \<open>
  The loop \<^verbatim>\<open>while (j === i) j = randomInt(0, arr.length)\<close>. The random source is a
  sequence of draws, \<open>k\<close> the position of the next one. The loop may run forever:
  \<open>None\<close> is that it does not return.
\<close>

partial_function (option) redraw :: "(nat \<Rightarrow> draw) \<Rightarrow> nat \<Rightarrow> int \<Rightarrow> int \<Rightarrow> int \<Rightarrow> int option" where
  "redraw rnd k n i j =
     (if j = i then redraw rnd (Suc k) n i (randomInt 0 n (rnd k)) else Some j)"

declare redraw.simps [code]

text \<open>
  \<open>Some None\<close> is the result \<^verbatim>\<open>null\<close>, \<open>Some (Some (x, y))\<close> the pair, and
  \<open>None\<close> that the call does not return.
\<close>

definition pickTwoDistinct :: "(nat \<Rightarrow> draw) \<Rightarrow> 'a list \<Rightarrow> ('a \<times> 'a) option option" where
  "pickTwoDistinct rnd arr =
     (if length arr < 2 then Some None
      else
        let n = int (length arr);
            i = randomInt 0 n (rnd 0);
            j0 = randomInt 0 n (rnd 1)
        in case redraw rnd 2 n i j0 of
             None \<Rightarrow> None
           | Some j \<Rightarrow> Some (Some (arr ! nat i, arr ! nat j)))"

subsection \<open>The provider: pool cache and round loading\<close>

datatype Rating = G | PG | PG13

fun ratingString :: "Rating \<Rightarrow> jsstring" where
  "ratingString G = (ascii ''g'')"
| "ratingString PG = (ascii ''pg'')"
| "ratingString PG13 = (ascii ''pg-13'')"

text \<open>The search parameters of one request (the URL is built from them).\<close>

record request =
  api_key :: jsstring
  q :: jsstring
  limit_p :: nat
  rating_p :: Rating
  lang :: jsstring

text \<open>
  A thrown value: an \<^verbatim>\<open>Error\<close> with its message, or a value with no message.
\<close>

datatype thrown = Error jsstring | NoMessage

fun message :: "thrown \<Rightarrow> jsstring" where
  "message (Error m) = m"
| "message NoMessage = (ascii ''Unknown error'')"

text \<open>
  What \<^verbatim>\<open>fetch(url)\<close> does: it rejects, or it resolves to a response with
  \<^verbatim>\<open>ok\<close>, \<^verbatim>\<open>status\<close>, \<^verbatim>\<open>statusText\<close> and a body. \<^verbatim>\<open>res.json()\<close> rejects on
  a body that is not JSON; \<open>Json None\<close> is a JSON value whose \<^verbatim>\<open>data\<close> is not an array.
\<close>

datatype body = BadJson thrown | Json "RawGif list option"

datatype fetch_outcome = Rejected thrown | Response bool nat jsstring body

text \<open>
  What a call of the provider's functions reads from outside: the credential, the
  \<^verbatim>\<open>rating\<close> and \<^verbatim>\<open>limit\<close> of the render, the fetch collaborator, the sources of
  UUIDs (by position in the response) and of random numbers, and the clock.
  \<^verbatim>\<open>String.prototype.toLowerCase\<close> is one of them: it follows the Unicode case
  mapping of the platform, a table that is not part of the repository, and is taken as it
  is given.
\<close>

record env =
  apiKey :: jsstring
  rating :: Rating
  limit :: nat
  toLowerCase :: "jsstring \<Rightarrow> jsstring"
  fetch :: "request \<Rightarrow> fetch_outcome"
  randomUUID :: "nat \<Rightarrow> jsstring"
  random :: "nat \<Rightarrow> draw"
  clock :: int

text \<open>
  What the provider mutates: the map of \<^verbatim>\<open>poolCacheRef\<close>, and, to count the
  fetches, the list of requests sent so far.
\<close>

record world =
  poolCache :: "jsstring \<rightharpoonup> GifItem list"
  requests :: "request list"

definition newWorld :: world where
  "newWorld = \<lparr>poolCache = Map.empty, requests = []\<rparr>"

text \<open>
  \<^verbatim>\<open>data.map(normalizeGif).filter((g) => g.displayUrl)\<close>: the items of a response
  that have a display URL.
\<close>

definition normalizeAll :: "env \<Rightarrow> RawGif list \<Rightarrow> GifItem list" where
  "normalizeAll e data =
     filter (\<lambda>g. displayUrl g \<noteq> [])
       (map (\<lambda>(k, raw). normalizeGif (randomUUID e k) raw) (enumerate 0 data))"

text \<open>The search request \<^verbatim>\<open>fetchPool\<close> sends for a theme.\<close>

definition searchRequest :: "env \<Rightarrow> jsstring \<Rightarrow> request" where
  "searchRequest e th =
     \<lparr>api_key = apiKey e, q = th, limit_p = limit e, rating_p = rating e, lang = (ascii ''en'')\<rparr>"

text \<open>
  \<^verbatim>\<open>fetchPool\<close> and \<^verbatim>\<open>ensurePool\<close> are asynchronous: a call runs up to
  \<^verbatim>\<open>await fetch(url)\<close>, and its rest runs when the response has arrived; other calls
  may run in between. (The second wait, \<^verbatim>\<open>await res.json()\<close>, is not separated:
  nothing is read or written between the two.) Each function is therefore given in two
  parts.

  \<^verbatim>\<open>fetchPool\<close> up to the wait: it throws without a credential, and sends the
  request otherwise.
\<close>

definition fetchPool_send :: "env \<Rightarrow> jsstring \<Rightarrow> thrown + request" where
  "fetchPool_send e th =
     (if apiKey e = []
      then Inl (Error (ascii ''Missing GIPHY API key. Set VITE_GIPHY_API_KEY or REACT_APP_GIPHY_API_KEY.''))
      else Inr (searchRequest e th))"

text \<open>\<^verbatim>\<open>fetchPool\<close> after the wait, on what the collaborator answered.\<close>

definition fetchPool_settle :: "env \<Rightarrow> jsstring \<Rightarrow> thrown + GifItem list" where
  "fetchPool_settle e th =
     (case fetch e (searchRequest e th) of
        Rejected t \<Rightarrow> Inl t
      | Response ok status statusText b \<Rightarrow>
          if \<not> ok
          then Inl (Error ((ascii ''GIPHY error: '') @ showNat status @ (ascii '' '') @ statusText))
          else (case b of
                  BadJson t \<Rightarrow> Inl t
                | Json d \<Rightarrow>
                    let data = (case d of Some xs \<Rightarrow> xs | None \<Rightarrow> []);
                        normalized = normalizeAll e data
                    in if length normalized < 2
                       then Inl (Error (ascii ''Not enough GIF results for that theme. Try another theme.''))
                       else Inr normalized))"

text \<open>The cache key: \<^verbatim>\<open>`${theme.trim().toLowerCase()}|${rating}`\<close>.\<close>

definition poolKey :: "env \<Rightarrow> jsstring \<Rightarrow> jsstring" where
  "poolKey e th = toLowerCase e (trim th) @ (ascii ''|'') @ ratingString (rating e)"

text \<open>
  \<^verbatim>\<open>ensurePool\<close> up to the wait: it returns the cached pool, or throws what
  \<^verbatim>\<open>fetchPool\<close> throws before it fetches, or has sent the request and waits.
\<close>

datatype started = Returned "GifItem list" | Threw thrown | Waiting

definition ensurePool_begin :: "env \<Rightarrow> jsstring \<Rightarrow> world \<Rightarrow> started \<times> world" where
  "ensurePool_begin e th w =
     (let key = poolKey e th;
          cached = poolCache w key
      in if cached \<noteq> None \<and> 2 \<le> length (the cached) then (Returned (the cached), w)
         else (case fetchPool_send e th of
                 Inl t \<Rightarrow> (Threw t, w)
               | Inr req \<Rightarrow> (Waiting, w\<lparr>requests := requests w @ [req]\<rparr>)))"

text \<open>
  \<^verbatim>\<open>ensurePool\<close> after the wait, in the world of that moment: it throws what
  \<^verbatim>\<open>fetchPool\<close> throws, or stores the fresh pool under the key and returns it. The
  \<^verbatim>\<open>set\<close> does not look at the cache again.
\<close>

definition ensurePool_finish :: "env \<Rightarrow> jsstring \<Rightarrow> world \<Rightarrow> (thrown + GifItem list) \<times> world" where
  "ensurePool_finish e th w =
     (let key = poolKey e th
      in case fetchPool_settle e th of
           Inl t \<Rightarrow> (Inl t, w)
         | Inr fresh \<Rightarrow> (Inr fresh, w\<lparr>poolCache := (poolCache w)(key \<mapsto> fresh)\<rparr>))"

text \<open>A call of \<^verbatim>\<open>ensurePool\<close> that runs to its end with no other call in between.\<close>

definition ensurePool :: "env \<Rightarrow> jsstring \<Rightarrow> world \<Rightarrow> (thrown + GifItem list) \<times> world" where
  "ensurePool e th w =
     (case ensurePool_begin e th w of
        (Returned cached, w') \<Rightarrow> (Inr cached, w')
      | (Threw t, w') \<Rightarrow> (Inl t, w')
      | (Waiting, w') \<Rightarrow> ensurePool_finish e th w')"

text \<open>
  Calls that overlap. The provider between two events is the world and the list of the
  calls that wait for their response. An event is a new call, or the arrival of the
  response of the waiting call at a position of that list, in any order.
\<close>

datatype event = Call env jsstring | Settle nat

fun schedule_step ::
  "world \<times> (env \<times> jsstring) list \<Rightarrow> event \<Rightarrow> world \<times> (env \<times> jsstring) list" where
  "schedule_step (w, waiting) (Call e th) =
     (case ensurePool_begin e th w of
        (Waiting, w') \<Rightarrow> (w', waiting @ [(e, th)])
      | (Returned cached, w') \<Rightarrow> (w', waiting)
      | (Threw t, w') \<Rightarrow> (w', waiting))"
| "schedule_step (w, waiting) (Settle i) =
     (if i < length waiting
      then (snd (ensurePool_finish (fst (waiting ! i)) (snd (waiting ! i)) w),
            take i waiting @ drop (Suc i) waiting)
      else (w, waiting))"

fun schedule ::
  "world \<times> (env \<times> jsstring) list \<Rightarrow> event list \<Rightarrow> world \<times> (env \<times> jsstring) list" where
  "schedule s [] = s"
| "schedule s (ev # evs) = schedule (schedule_step s ev) evs"

text \<open>
  The \<^verbatim>\<open>try\<close> block of \<^verbatim>\<open>loadNextPair\<close>: \<open>Inl\<close> is the value it throws,
  \<open>Inr\<close> the payload of \<open>LOAD_PAIR_SUCCESS\<close>. The state it reads is the one the
  render captured.
\<close>

definition loadNextPair_try ::
  "env \<Rightarrow> GameState \<Rightarrow> world \<Rightarrow> ((thrown + GifItem \<times> GifItem \<times> int) \<times> world) option" where
  "loadNextPair_try e state w =
     (let th = trim (theme state) in
      if th = [] then Some (Inl (Error (ascii ''Theme is empty. Type something.'')), w)
      else (case ensurePool e th w of
              (Inl t, w') \<Rightarrow> Some (Inl t, w')
            | (Inr pool, w') \<Rightarrow>
                (case pickTwoDistinct (random e) pool of
                   None \<Rightarrow> None
                 | Some None \<Rightarrow>
                     Some (Inl (Error (ascii ''Not enough GIFs in the pool. Try another theme.'')), w')
                 | Some (Some (l, r)) \<Rightarrow> Some (Inr (l, r, int (length pool)), w'))))"

text \<open>
  \<^verbatim>\<open>loadNextPair\<close>, run to its end with no other action in between: \<open>state\<close> is the
  state the render captured, \<open>cur\<close> the state the dispatched actions are reduced on.
\<close>

definition loadNextPair ::
  "env \<Rightarrow> GameState \<Rightarrow> GameState \<times> world \<Rightarrow> (GameState \<times> world) option" where
  "loadNextPair e state cw =
     (let (cur, w) = cw;
          cur1 = gameReducer (clock e) cur LOAD_PAIR_START
      in case loadNextPair_try e state w of
           None \<Rightarrow> None
         | Some (Inl err, w') \<Rightarrow>
             Some (gameReducer (clock e) cur1 (LOAD_PAIR_ERROR (message err)), w')
         | Some (Inr (l, r, n), w') \<Rightarrow>
             Some (gameReducer (clock e) cur1 (LOAD_PAIR_SUCCESS l r n), w'))"

text \<open>
  The fetch collaborator fails, or fewer than two of its items have a display URL.
\<close>

fun collaboratorFails :: "env \<Rightarrow> fetch_outcome \<Rightarrow> bool" where
  "collaboratorFails e (Rejected t) = True"
| "collaboratorFails e (Response ok status statusText (BadJson t)) = True"
| "collaboratorFails e (Response ok status statusText (Json d)) =
     (\<not> ok \<or> length (normalizeAll e (case d of Some xs \<Rightarrow> xs | None \<Rightarrow> [])) < 2)"

subsection \<open>Invariants\<close>

text \<open>Every cached pool has at least two items, each with a display URL.\<close>

definition poolsOk :: "(jsstring \<rightharpoonup> GifItem list) \<Rightarrow> bool" where
  "poolsOk c = (\<forall>k xs. c k = Some xs \<longrightarrow> 2 \<le> length xs \<and> (\<forall>g \<in> set xs. displayUrl g \<noteq> []))"

text \<open>
  The score is the tally of the history, the round is one more than the number of votes,
  and the rounds recorded are the numbers from that number down to 1.
\<close>

definition consistent :: "GameState \<Rightarrow> bool" where
  "consistent st =
     ((\<forall>t s. cell (score st) t s = tally (history st) t s) \<and>
      round_s st = int (length (history st)) + 1 \<and>
      map round_v (history st) = rev (map int [1 ..< Suc (length (history st))]))"

subsection \<open>Concrete values\<close>

text \<open>Two items, a state with a loaded pair, and the state after one vote on it.\<close>

definition gifA :: GifItem where
  "gifA = \<lparr>gif_id = (ascii ''a1''), title = (ascii ''A''), displayUrl = (ascii ''https://example.org/a.gif'')\<rparr>"

definition gifB :: GifItem where
  "gifB = \<lparr>gif_id = (ascii ''b2''), title = (ascii ''B''), displayUrl = (ascii ''https://example.org/b.gif'')\<rparr>"

text \<open>
  Every code unit that \<^verbatim>\<open>trim\<close> removes, in one string.
\<close>

definition whiteSpaces :: jsstring where
  "whiteSpaces =
     [9, 10, 11, 12, 13, 32, 160, 5760, 8192, 8193, 8194, 8195, 8196, 8197, 8198, 8199, 8200,
      8201, 8202, 8232, 8233, 8239, 8287, 12288, 65279]"

definition readyState :: GameState where
  "readyState = gameReducer 0 initialState (LOAD_PAIR_SUCCESS gifA gifB 2)"

definition votedState :: GameState where
  "votedState = gameReducer 7 readyState (VOTE Like SLeft)"

text \<open>
  Two raw records that normalise to the two items, a collaborator that returns them, one
  that answers with status 500, one that returns a single usable item, and one whose
  answer depends on the spelling of the query. On the ASCII themes these environments meet,
  \<^verbatim>\<open>toLowerCase\<close> lowers the letters A to Z.
\<close>

definition asciiLower :: "jsstring \<Rightarrow> jsstring" where
  "asciiLower s = map (\<lambda>c. if 65 \<le> c \<and> c \<le> 90 then c + 32 else c) s"

definition rawA :: RawGif where
  "rawA = \<lparr>raw_id = Some (ascii ''a1''), raw_title = Some (ascii ''A''),
            fixed_width_url = Some (ascii ''https://example.org/a.gif''), downsized_url = None,
            original_url = None\<rparr>"

definition rawB :: RawGif where
  "rawB = \<lparr>raw_id = Some (ascii ''b2''), raw_title = Some (ascii ''B''),
            fixed_width_url = Some [], downsized_url = Some (ascii ''https://example.org/b.gif''),
            original_url = None\<rparr>"

definition rawNoUrl :: RawGif where
  "rawNoUrl = \<lparr>raw_id = None, raw_title = None, fixed_width_url = None, downsized_url = None,
                original_url = Some []\<rparr>"

definition goodEnv :: env where
  "goodEnv =
     \<lparr>apiKey = (ascii ''key''), rating = PG, limit = 25, toLowerCase = asciiLower,
      fetch = (\<lambda>req. Response True 200 (ascii ''OK'') (Json (Some [rawA, rawNoUrl, rawB]))),
      randomUUID = (\<lambda>k. (ascii ''uuid'')),
      random = (\<lambda>k. if k = 0 then drawZero else drawHalf),
      clock = 0\<rparr>"

definition downEnv :: env where
  "downEnv = goodEnv\<lparr>fetch := (\<lambda>req. Response False 500 (ascii ''Internal Server Error'') (Json None))\<rparr>"

definition sparseEnv :: env where
  "sparseEnv = goodEnv\<lparr>fetch := (\<lambda>req. Response True 200 (ascii ''OK'') (Json (Some [rawA, rawNoUrl])))\<rparr>"

definition spellingEnv :: env where
  "spellingEnv =
     goodEnv\<lparr>fetch := (\<lambda>req. if q req = (ascii ''cats'')
                              then Response True 200 (ascii ''OK'') (Json (Some [rawA, rawB]))
                              else Response True 200 (ascii ''OK'') (Json (Some [rawB, rawA])))\<rparr>"

section \<open>The reducer\<close>

subsection \<open>Score cells and tallies\<close>

lemma cell_zeroScore: "cell zeroScore t s = 0"
  by (cases t; cases s) (simp_all add: zeroScore_def)

lemma tally_Nil: "tally [] t s = 0"
  by (simp add: tally_def)

lemma tally_Cons:
  "tally (r # h) t s = (if voteType r = t \<and> winnerSide r = s then 1 else 0) + tally h t s"
  by (simp add: tally_def)

lemma tally_nonneg: "0 \<le> tally h t s"
  by (simp add: tally_def)

lemma getSide_setSide: "getSide (setSide c s v) s' = (if s' = s then v else getSide c s')"
  by (cases s; cases s') simp_all

lemma cell_like_update:
  "cell (sc\<lparr>like := setSide (like sc) s v\<rparr>) t s' =
     (if t = Like \<and> s' = s then v else cell sc t s')"
  by (cases t) (simp_all add: getSide_setSide)

lemma cell_funny_update:
  "cell (sc\<lparr>funny := setSide (funny sc) s v\<rparr>) t s' =
     (if t = Funny \<and> s' = s then v else cell sc t s')"
  by (cases t) (simp_all add: getSide_setSide)

text \<open>What VOTE does on a loaded pair, and what UNDO does on a non-empty history.\<close>

text \<open>
  What \<open>VOTE\<close> does on a loaded pair and \<open>UNDO_LAST_VOTE\<close> on a non-empty
  history, with the cells written as \<^verbatim>\<open>score[t][s]\<close>.
\<close>

lemma vote_loaded:
  assumes "leftGif st = Some l" "rightGif st = Some r"
  shows "gameReducer now st (VOTE vt side) =
     st\<lparr>score := (if vt = Like
                   then (score st)\<lparr>like := setSide (like (score st)) side (cell (score st) Like side + 1)\<rparr>
                   else (score st)\<lparr>funny := setSide (funny (score st)) side (cell (score st) Funny side + 1)\<rparr>),
        history := \<lparr>round_v = round_s st, theme_v = theme st, voteType = vt, winnerSide = side,
                    leftId = gif_id l, rightId = gif_id r, ts = now\<rparr> # history st,
        round_s := round_s st + 1\<rparr>"
  using assms by (simp add: Let_def)

lemma vote_unloaded:
  assumes "leftGif st = None \<or> rightGif st = None"
  shows "gameReducer now st (VOTE vt side) = st"
  using assms by (auto split: option.splits)

lemma undo_Cons:
  assumes "history st = r # rest"
  shows "gameReducer now st UNDO_LAST_VOTE =
     st\<lparr>score := (if voteType r = Like
                   then (score st)\<lparr>like := setSide (like (score st)) (winnerSide r)
                          (max 0 (cell (score st) Like (winnerSide r) - 1))\<rparr>
                   else (score st)\<lparr>funny := setSide (funny (score st)) (winnerSide r)
                          (max 0 (cell (score st) Funny (winnerSide r) - 1))\<rparr>),
        history := rest,
        round_s := max 1 (round_s st - 1)\<rparr>"
  using assms by (simp add: Let_def)

lemma vote_cell:
  assumes "leftGif st = Some l" "rightGif st = Some r"
  shows "cell (score (gameReducer now st (VOTE vt side))) t s =
           (if t = vt \<and> s = side then cell (score st) t s + 1 else cell (score st) t s)"
  unfolding vote_loaded [OF assms]
  by (cases vt) (auto simp add: cell_like_update cell_funny_update simp del: cell.simps)

lemma undo_cell:
  assumes "history st = r # rest"
  shows "cell (score (gameReducer now st UNDO_LAST_VOTE)) t s =
           (if t = voteType r \<and> s = winnerSide r then max 0 (cell (score st) t s - 1)
            else cell (score st) t s)"
  unfolding undo_Cons [OF assms]
  by (cases "voteType r") (auto simp add: cell_like_update cell_funny_update simp del: cell.simps)

subsection \<open>The invariant of the run\<close>

lemma consistent_fresh:
  assumes "score st = zeroScore" "history st = []" "round_s st = 1"
  shows "consistent st"
  using assms by (simp add: consistent_def cell_zeroScore tally_Nil del: cell.simps)

lemma consistent_vote:
  assumes c: "consistent st"
  shows "consistent (gameReducer now st (VOTE vt side))"
proof (cases "leftGif st")
  case None
  then show ?thesis using c by (simp add: vote_unloaded del: gameReducer.simps)
next
  case l: (Some l)
  show ?thesis
  proof (cases "rightGif st")
    case None
    then show ?thesis using c by (simp add: vote_unloaded del: gameReducer.simps)
  next
    case r: (Some r)
    let ?st = "gameReducer now st (VOTE vt side)"
    have h: "history ?st = \<lparr>round_v = round_s st, theme_v = theme st, voteType = vt,
        winnerSide = side, leftId = gif_id l, rightId = gif_id r, ts = now\<rparr> # history st"
      and rd: "round_s ?st = round_s st + 1"
      by (simp_all add: vote_loaded [OF l r] del: gameReducer.simps)
    have "cell (score ?st) t s = tally (history ?st) t s" for t s
      using c by (auto simp add: vote_cell [OF l r] h tally_Cons consistent_def simp del: gameReducer.simps cell.simps)
    moreover have "round_s ?st = int (length (history ?st)) + 1"
      using c by (simp add: h rd consistent_def del: gameReducer.simps)
    moreover have "map round_v (history ?st) = rev (map int [1 ..< Suc (length (history ?st))])"
      using c by (simp add: h consistent_def del: gameReducer.simps)
    ultimately show ?thesis
      unfolding consistent_def by blast
  qed
qed

lemma consistent_undo:
  assumes c: "consistent st"
  shows "consistent (gameReducer now st UNDO_LAST_VOTE)"
proof (cases "history st")
  case Nil
  then show ?thesis using c by simp
next
  case (Cons r rest)
  let ?st = "gameReducer now st UNDO_LAST_VOTE"
  have h: "history ?st = rest" and rd: "round_s ?st = max 1 (round_s st - 1)"
    by (simp_all add: undo_Cons [OF Cons] del: gameReducer.simps)
  have "cell (score ?st) t s = tally (history ?st) t s" for t s
    using c tally_nonneg [of rest t s]
    by (auto simp add: undo_cell [OF Cons] h Cons tally_Cons consistent_def
        simp del: gameReducer.simps cell.simps)
  moreover have "round_s ?st = int (length (history ?st)) + 1"
    using c by (simp add: h rd Cons consistent_def del: gameReducer.simps)
  moreover have "map round_v (history ?st) = rev (map int [1 ..< Suc (length (history ?st))])"
    using c by (simp add: h Cons consistent_def del: gameReducer.simps)
  ultimately show ?thesis
    unfolding consistent_def by blast
qed

lemma consistent_step:
  assumes "consistent st"
  shows "consistent (gameReducer now st a)"
proof (cases a)
  case (SET_THEME th)
  then show ?thesis by (simp add: consistent_fresh)
next
  case LOAD_PAIR_START
  then show ?thesis using assms by (simp add: consistent_def)
next
  case (LOAD_PAIR_SUCCESS l r n)
  then show ?thesis using assms by (simp add: consistent_def)
next
  case (LOAD_PAIR_ERROR msg)
  then show ?thesis using assms by (simp add: consistent_def)
next
  case (VOTE vt side)
  then show ?thesis using assms by (simp only: consistent_vote)
next
  case UNDO_LAST_VOTE
  then show ?thesis using assms by (simp only: consistent_undo)
next
  case RESET_RUN
  then show ?thesis by (simp add: consistent_fresh)
qed

lemma consistent_dispatchAll:
  "consistent st \<Longrightarrow> consistent (dispatchAll st evs)"
  by (induction st evs rule: dispatchAll.induct) (simp_all add: consistent_step del: gameReducer.simps)

lemma consistent_initialState: "consistent initialState"
  by (rule consistent_fresh) (simp_all add: initialState_def)

lemma consistent_SET_THEME: "consistent (gameReducer now st (SET_THEME th))"
  by (rule consistent_fresh) simp_all

lemma consistent_RESET_RUN: "consistent (gameReducer now st RESET_RUN)"
  by (rule consistent_fresh) simp_all

lemma consistent_cell:
  "consistent st \<Longrightarrow> cell (score st) t s = tally (history st) t s \<and> 0 \<le> cell (score st) t s"
  using tally_nonneg [of "history st" t s] by (simp add: consistent_def del: cell.simps)

lemma undo_Nil: "history st = [] \<Longrightarrow> gameReducer now st UNDO_LAST_VOTE = st"
  by simp

lemma votedState_history:
  "history votedState = \<lparr>round_v = 1, theme_v = (ascii ''cats''), voteType = Like, winnerSide = SLeft,
       leftId = (ascii ''a1''), rightId = (ascii ''b2''), ts = 7\<rparr> # []"
  by (simp add: votedState_def readyState_def initialState_def gifA_def gifB_def)

lemma votedState_run:
  "dispatchAll initialState [(0, LOAD_PAIR_SUCCESS gifA gifB 2), (7, VOTE Like SLeft)] = votedState"
  by (simp add: votedState_def readyState_def del: gameReducer.simps)

subsection \<open>The score is the tally of the history\<close>

text \<open>
  Claim C1. In every state that a sequence of reducer actions reaches from the initial
  state, or from a state that \<open>SET_THEME\<close> or \<open>RESET_RUN\<close> has just produced,
  every score cell \<^verbatim>\<open>score[t][s]\<close> is the number of vote records of the history with
  vote type \<open>t\<close> and winner side \<open>s\<close>, and so is not negative.
\<close>

theorem score_is_tally:
  "(cell (score (dispatchAll initialState evs)) t s
      = tally (history (dispatchAll initialState evs)) t s \<and>
    0 \<le> cell (score (dispatchAll initialState evs)) t s) \<and>
   (cell (score (dispatchAll (gameReducer now st (SET_THEME th)) evs)) t s
      = tally (history (dispatchAll (gameReducer now st (SET_THEME th)) evs)) t s \<and>
    0 \<le> cell (score (dispatchAll (gameReducer now st (SET_THEME th)) evs)) t s) \<and>
   (cell (score (dispatchAll (gameReducer now st RESET_RUN) evs)) t s
      = tally (history (dispatchAll (gameReducer now st RESET_RUN) evs)) t s \<and>
    0 \<le> cell (score (dispatchAll (gameReducer now st RESET_RUN) evs)) t s)"
  using consistent_cell [OF consistent_dispatchAll [OF consistent_initialState]]
    consistent_cell [OF consistent_dispatchAll [OF consistent_SET_THEME]]
    consistent_cell [OF consistent_dispatchAll [OF consistent_RESET_RUN]]
  by blast

subsection \<open>Vote and undo\<close>

text \<open>
  Claim C7. \<open>VOTE\<close> leaves a state with a missing side unchanged. On a state with
  both sides it adds 1 to the cell of the vote type and winner side and leaves the other
  three cells, puts a record of the current round, theme, the two ids, the vote and the
  clock reading in front of the history, and adds 1 to the round; nothing else changes.
\<close>

theorem vote_effect:
  "(leftGif st = None \<or> rightGif st = None \<longrightarrow> gameReducer now st (VOTE vt side) = st) \<and>
   (leftGif st = Some l \<and> rightGif st = Some r \<longrightarrow>
      cell (score (gameReducer now st (VOTE vt side))) vt side = cell (score st) vt side + 1 \<and>
      (\<forall>t s. (t, s) \<noteq> (vt, side) \<longrightarrow>
         cell (score (gameReducer now st (VOTE vt side))) t s = cell (score st) t s) \<and>
      history (gameReducer now st (VOTE vt side)) =
        \<lparr>round_v = round_s st, theme_v = theme st, voteType = vt, winnerSide = side,
         leftId = gif_id l, rightId = gif_id r, ts = now\<rparr> # history st \<and>
      round_s (gameReducer now st (VOTE vt side)) = round_s st + 1 \<and>
      gameReducer now st (VOTE vt side) =
        st\<lparr>score := score (gameReducer now st (VOTE vt side)),
           history := history (gameReducer now st (VOTE vt side)),
           round_s := round_s st + 1\<rparr>)"
proof (intro conjI impI)
  assume "leftGif st = None \<or> rightGif st = None"
  then show "gameReducer now st (VOTE vt side) = st" by (rule vote_unloaded)
next
  assume a: "leftGif st = Some l \<and> rightGif st = Some r"
  then have l: "leftGif st = Some l" and r: "rightGif st = Some r" by simp_all
  show "cell (score (gameReducer now st (VOTE vt side))) vt side = cell (score st) vt side + 1"
    by (simp add: vote_cell [OF l r] del: gameReducer.simps cell.simps)
  show "\<forall>t s. (t, s) \<noteq> (vt, side) \<longrightarrow>
         cell (score (gameReducer now st (VOTE vt side))) t s = cell (score st) t s"
    by (simp add: vote_cell [OF l r] del: gameReducer.simps cell.simps)
  show "history (gameReducer now st (VOTE vt side)) =
        \<lparr>round_v = round_s st, theme_v = theme st, voteType = vt, winnerSide = side,
         leftId = gif_id l, rightId = gif_id r, ts = now\<rparr> # history st"
    by (simp add: vote_loaded [OF l r] del: gameReducer.simps)
  show "round_s (gameReducer now st (VOTE vt side)) = round_s st + 1"
    by (simp add: vote_loaded [OF l r] del: gameReducer.simps)
  show "gameReducer now st (VOTE vt side) =
        st\<lparr>score := score (gameReducer now st (VOTE vt side)),
           history := history (gameReducer now st (VOTE vt side)),
           round_s := round_s st + 1\<rparr>"
    by (simp add: vote_loaded [OF l r] del: gameReducer.simps)
qed

theorem vote_effect_witness:
  "gameReducer 7 initialState (VOTE Like SLeft) = initialState \<and>
   cell (score (gameReducer 7 readyState (VOTE Like SLeft))) Like SLeft = cell (score readyState) Like SLeft + 1 \<and>
   cell (score (gameReducer 7 readyState (VOTE Like SLeft))) Funny SLeft = cell (score readyState) Funny SLeft \<and>
   history (gameReducer 7 readyState (VOTE Like SLeft)) =
     [\<lparr>round_v = 1, theme_v = (ascii ''cats''), voteType = Like, winnerSide = SLeft,
       leftId = (ascii ''a1''), rightId = (ascii ''b2''), ts = 7\<rparr>] \<and>
   round_s (gameReducer 7 readyState (VOTE Like SLeft)) = 2"
proof -
  have none: "leftGif initialState = None \<or> rightGif initialState = None"
    by (simp add: initialState_def)
  have some: "leftGif readyState = Some gifA \<and> rightGif readyState = Some gifB"
    by (simp add: readyState_def)
  have ne: "(Funny, SLeft) \<noteq> (Like, SLeft)" by simp
  have vals: "round_s readyState = 1" "theme readyState = (ascii ''cats'')" "history readyState = []"
    "gif_id gifA = (ascii ''a1'')" "gif_id gifB = (ascii ''b2'')"
    by (simp_all add: readyState_def initialState_def gifA_def gifB_def)
  from vote_effect [where st = initialState and now = 7 and vt = Like and side = SLeft] none
  have 1: "gameReducer 7 initialState (VOTE Like SLeft) = initialState" by blast
  from vote_effect [where st = readyState and l = gifA and r = gifB and now = 7 and vt = Like and side = SLeft] some ne
  have 2: "cell (score (gameReducer 7 readyState (VOTE Like SLeft))) Like SLeft = cell (score readyState) Like SLeft + 1"
    and 3: "cell (score (gameReducer 7 readyState (VOTE Like SLeft))) Funny SLeft = cell (score readyState) Funny SLeft"
    and 4: "history (gameReducer 7 readyState (VOTE Like SLeft)) =
        \<lparr>round_v = round_s readyState, theme_v = theme readyState, voteType = Like, winnerSide = SLeft,
         leftId = gif_id gifA, rightId = gif_id gifB, ts = 7\<rparr> # history readyState"
    and 5: "round_s (gameReducer 7 readyState (VOTE Like SLeft)) = round_s readyState + 1"
    by blast+
  show ?thesis
    using 1 2 3 4 5 by (simp only: vals) simp
qed

text \<open>
  Claim C8. \<^verbatim>\<open>undo()\<close> leaves a state with an empty history unchanged. On a
  history with a first record it removes that record, lowers the cell of the record's
  vote type and winner side by 1 but not below 0, leaves the other cells, and lowers the
  round by 1 but not below 1; nothing else changes.
\<close>

theorem undo_effect:
  "(history st = [] \<longrightarrow> undo now st = st) \<and>
   (history st = r # rest \<longrightarrow>
      history (undo now st) = rest \<and>
      cell (score (undo now st)) (voteType r) (winnerSide r)
        = max 0 (cell (score st) (voteType r) (winnerSide r) - 1) \<and>
      (\<forall>t s. (t, s) \<noteq> (voteType r, winnerSide r) \<longrightarrow>
         cell (score (undo now st)) t s = cell (score st) t s) \<and>
      round_s (undo now st) = max 1 (round_s st - 1) \<and>
      undo now st =
        st\<lparr>score := score (undo now st), history := rest, round_s := max 1 (round_s st - 1)\<rparr>)"
proof (intro conjI impI)
  assume "history st = []"
  then show "undo now st = st" unfolding undo_def by (rule undo_Nil)
next
  assume h: "history st = r # rest"
  show "history (undo now st) = rest"
    unfolding undo_def by (simp add: undo_Cons [OF h] del: gameReducer.simps)
  show "cell (score (undo now st)) (voteType r) (winnerSide r)
        = max 0 (cell (score st) (voteType r) (winnerSide r) - 1)"
    unfolding undo_def by (simp add: undo_cell [OF h] del: gameReducer.simps cell.simps)
  show "\<forall>t s. (t, s) \<noteq> (voteType r, winnerSide r) \<longrightarrow>
         cell (score (undo now st)) t s = cell (score st) t s"
    unfolding undo_def by (simp add: undo_cell [OF h] del: gameReducer.simps cell.simps)
  show "round_s (undo now st) = max 1 (round_s st - 1)"
    unfolding undo_def by (simp add: undo_Cons [OF h] del: gameReducer.simps)
  show "undo now st =
        st\<lparr>score := score (undo now st), history := rest, round_s := max 1 (round_s st - 1)\<rparr>"
    unfolding undo_def by (simp add: undo_Cons [OF h] del: gameReducer.simps)
qed

theorem undo_effect_witness:
  "undo 9 initialState = initialState \<and>
   history (undo 9 votedState) = [] \<and>
   cell (score (undo 9 votedState)) Like SLeft = 0 \<and>
   cell (score (undo 9 votedState)) Funny SRight = cell (score votedState) Funny SRight \<and>
   round_s (undo 9 votedState) = 1"
proof -
  have e: "history initialState = []" by (simp add: initialState_def)
  have ne: "(Funny, SRight) \<noteq> (Like, SLeft)" by simp
  have vals: "cell (score votedState) Like SLeft = 1" "round_s votedState = 2"
    by (simp_all add: votedState_def readyState_def initialState_def zeroScore_def)
  from undo_effect [where st = initialState and now = 9] e
  have 1: "undo 9 initialState = initialState" by blast
  note u = undo_effect [where st = votedState and r = "\<lparr>round_v = 1, theme_v = (ascii ''cats''), voteType = Like,
       winnerSide = SLeft, leftId = (ascii ''a1''), rightId = (ascii ''b2''), ts = 7\<rparr>" and rest = "[]" and now = 9,
       THEN conjunct2, THEN mp, OF votedState_history]
  from u have "history (undo 9 votedState) = []"
    and "cell (score (undo 9 votedState)) Like SLeft = max 0 (cell (score votedState) Like SLeft - 1)"
    and "cell (score (undo 9 votedState)) Funny SRight = cell (score votedState) Funny SRight"
    and "round_s (undo 9 votedState) = max 1 (round_s votedState - 1)"
    by (simp_all del: cell.simps)
  with 1 show ?thesis by (simp only: vals) simp
qed

text \<open>
  Claim C2. In every state that the reducer reaches from the initial state and in which
  both sides are loaded, \<open>VOTE\<close> followed by \<open>UNDO_LAST_VOTE\<close> gives back the
  score, the round and the history, and indeed the whole state: the round of such a state
  is at least 1 and its cells are not negative, so the floors of the undo do not clamp.
\<close>

theorem vote_undo_round_trip:
  assumes "leftGif (dispatchAll initialState evs) \<noteq> None"
    and "rightGif (dispatchAll initialState evs) \<noteq> None"
  shows "score (gameReducer now' (gameReducer now (dispatchAll initialState evs) (VOTE vt side)) UNDO_LAST_VOTE)
           = score (dispatchAll initialState evs) \<and>
         round_s (gameReducer now' (gameReducer now (dispatchAll initialState evs) (VOTE vt side)) UNDO_LAST_VOTE)
           = round_s (dispatchAll initialState evs) \<and>
         history (gameReducer now' (gameReducer now (dispatchAll initialState evs) (VOTE vt side)) UNDO_LAST_VOTE)
           = history (dispatchAll initialState evs) \<and>
         gameReducer now' (gameReducer now (dispatchAll initialState evs) (VOTE vt side)) UNDO_LAST_VOTE
           = dispatchAll initialState evs"
proof -
  let ?st = "dispatchAll initialState evs"
  have c: "consistent ?st"
    by (rule consistent_dispatchAll [OF consistent_initialState])
  from assms obtain l r where l: "leftGif ?st = Some l" and r: "rightGif ?st = Some r"
    by auto
  have "1 \<le> round_s ?st" using c by (simp add: consistent_def)
  moreover have "0 \<le> cell (score ?st) vt side" using consistent_cell [OF c] by blast
  ultimately have "gameReducer now' (gameReducer now ?st (VOTE vt side)) UNDO_LAST_VOTE = ?st"
    using l r by (cases vt; cases side) (simp_all add: Let_def)
  then show ?thesis by simp
qed

theorem vote_undo_round_trip_witness:
  "dispatchAll initialState [(0, LOAD_PAIR_SUCCESS gifA gifB 2), (7, VOTE Like SLeft)] = votedState \<and>
   leftGif votedState \<noteq> None \<and> rightGif votedState \<noteq> None \<and>
   score (gameReducer 9 (gameReducer 8 votedState (VOTE Like SLeft)) UNDO_LAST_VOTE) = score votedState \<and>
   round_s (gameReducer 9 (gameReducer 8 votedState (VOTE Like SLeft)) UNDO_LAST_VOTE) = 2 \<and>
   history (gameReducer 9 (gameReducer 8 votedState (VOTE Like SLeft)) UNDO_LAST_VOTE) = history votedState \<and>
   gameReducer 9 (gameReducer 8 votedState (VOTE Like SLeft)) UNDO_LAST_VOTE = votedState"
proof -
  have g: "leftGif votedState \<noteq> None" "rightGif votedState \<noteq> None" and rd: "round_s votedState = 2"
    by (simp_all add: votedState_def readyState_def initialState_def)
  note t = vote_undo_round_trip [where evs = "[(0, LOAD_PAIR_SUCCESS gifA gifB 2), (7, VOTE Like SLeft)]"
      and now = 8 and now' = 9 and vt = Like and side = SLeft, unfolded votedState_run, OF g]
  from t g rd votedState_run show ?thesis by simp
qed

text \<open>
  Claim C10. In every state reached from the initial state the round is the length of
  the history plus 1, so it is at least 1; the rounds of the records, newest first, are
  the length of the history down to 1; and on a non-empty history the two floors of
  \<open>UNDO_LAST_VOTE\<close> do not clamp: the cell of the first record is at least 1 and the
  round at least 2, so the undo lowers each by exactly 1.
\<close>

theorem round_is_history_length:
  "round_s (dispatchAll initialState evs) = int (length (history (dispatchAll initialState evs))) + 1 \<and>
   1 \<le> round_s (dispatchAll initialState evs) \<and>
   map round_v (history (dispatchAll initialState evs))
     = rev (map int [1 ..< Suc (length (history (dispatchAll initialState evs)))]) \<and>
   (history (dispatchAll initialState evs) = r # rest \<longrightarrow>
      0 \<le> cell (score (dispatchAll initialState evs)) (voteType r) (winnerSide r) - 1 \<and>
      1 \<le> round_s (dispatchAll initialState evs) - 1 \<and>
      cell (score (undo now (dispatchAll initialState evs))) (voteType r) (winnerSide r)
        = cell (score (dispatchAll initialState evs)) (voteType r) (winnerSide r) - 1 \<and>
      round_s (undo now (dispatchAll initialState evs)) = round_s (dispatchAll initialState evs) - 1)"
proof -
  let ?st = "dispatchAll initialState evs"
  have c: "consistent ?st"
    by (rule consistent_dispatchAll [OF consistent_initialState])
  have 1: "round_s ?st = int (length (history ?st)) + 1"
    and 3: "map round_v (history ?st) = rev (map int [1 ..< Suc (length (history ?st))])"
    using c by (simp_all add: consistent_def)
  have 2: "1 \<le> round_s ?st" using 1 by simp
  have 4: "0 \<le> cell (score ?st) (voteType r) (winnerSide r) - 1 \<and> 1 \<le> round_s ?st - 1 \<and>
      cell (score (undo now ?st)) (voteType r) (winnerSide r)
        = cell (score ?st) (voteType r) (winnerSide r) - 1 \<and>
      round_s (undo now ?st) = round_s ?st - 1" if h: "history ?st = r # rest"
  proof -
    have "cell (score ?st) (voteType r) (winnerSide r) = tally (history ?st) (voteType r) (winnerSide r)"
      using consistent_cell [OF c] by blast
    then have a: "1 \<le> cell (score ?st) (voteType r) (winnerSide r)"
      using tally_nonneg [of rest "voteType r" "winnerSide r"] by (simp add: h tally_Cons del: cell.simps)
    have b: "2 \<le> round_s ?st" using 1 by (simp add: h)
    have "cell (score (undo now ?st)) (voteType r) (winnerSide r)
        = max 0 (cell (score ?st) (voteType r) (winnerSide r) - 1)"
      unfolding undo_def by (simp add: undo_cell [OF h] del: gameReducer.simps cell.simps)
    moreover have "round_s (undo now ?st) = max 1 (round_s ?st - 1)"
      unfolding undo_def by (simp add: undo_Cons [OF h] del: gameReducer.simps)
    ultimately show ?thesis using a b by simp
  qed
  show ?thesis using 1 2 3 4 by blast
qed

theorem round_is_history_length_witness:
  "round_s votedState = 2 \<and> map round_v (history votedState) = [1] \<and>
   0 \<le> cell (score votedState) Like SLeft - 1 \<and> 1 \<le> round_s votedState - 1 \<and>
   cell (score (undo 9 votedState)) Like SLeft = cell (score votedState) Like SLeft - 1 \<and>
   round_s (undo 9 votedState) = round_s votedState - 1"
proof -
  note t = round_is_history_length [where evs = "[(0, LOAD_PAIR_SUCCESS gifA gifB 2), (7, VOTE Like SLeft)]"
      and r = "\<lparr>round_v = 1, theme_v = (ascii ''cats''), voteType = Like, winnerSide = SLeft,
       leftId = (ascii ''a1''), rightId = (ascii ''b2''), ts = 7\<rparr>" and rest = "[]" and now = 9, unfolded votedState_run]
  show ?thesis
    using t votedState_history by simp
qed

subsection \<open>Changing the theme\<close>

text \<open>
  What \<^verbatim>\<open>trim\<close> returns: the input is some white space, the result, and some
  white space; and a result that is not empty neither starts nor ends with white space.
\<close>

lemma trim_split:
  "dropWhile isSpace x = trim x @ rev (takeWhile isSpace (rev (dropWhile isSpace x)))"
proof -
  let ?y = "dropWhile isSpace x"
  have "trim x @ rev (takeWhile isSpace (rev ?y))
      = rev (takeWhile isSpace (rev ?y) @ dropWhile isSpace (rev ?y))"
    by (simp only: trim_def rev_append)
  also have "\<dots> = rev (rev ?y)"
    by (simp only: takeWhile_dropWhile_id)
  also have "\<dots> = ?y"
    by (simp only: rev_rev_ident)
  finally show ?thesis by (rule sym)
qed

lemma trim_decomp:
  "\<exists>pre suf. x = pre @ trim x @ suf \<and> (\<forall>c \<in> set pre. isSpace c) \<and> (\<forall>c \<in> set suf. isSpace c)"
proof (intro exI conjI)
  have "x = takeWhile isSpace x @ dropWhile isSpace x"
    by (simp only: takeWhile_dropWhile_id)
  also have "dropWhile isSpace x = trim x @ rev (takeWhile isSpace (rev (dropWhile isSpace x)))"
    by (rule trim_split)
  finally show "x = takeWhile isSpace x @ trim x @ rev (takeWhile isSpace (rev (dropWhile isSpace x)))" .
  show "\<forall>c \<in> set (takeWhile isSpace x). isSpace c"
    by (blast dest: set_takeWhileD)
  show "\<forall>c \<in> set (rev (takeWhile isSpace (rev (dropWhile isSpace x)))). isSpace c"
    unfolding set_rev by (blast dest: set_takeWhileD)
qed

lemma trim_ends:
  assumes "trim x \<noteq> []"
  shows "\<not> isSpace (hd (trim x)) \<and> \<not> isSpace (last (trim x))"
proof -
  let ?z = "dropWhile isSpace (rev (dropWhile isSpace x))"
  have t: "trim x = rev ?z" by (simp only: trim_def)
  with assms have z: "?z \<noteq> []" by simp
  then have "\<not> isSpace (hd ?z)" by (rule hd_dropWhile)
  then have l: "\<not> isSpace (last (trim x))" by (simp add: t last_rev)
  obtain suf where y: "dropWhile isSpace x = trim x @ suf"
    using trim_split [of x] by blast
  from assms have h: "hd (trim x @ suf) = hd (trim x)"
    by (rule hd_append2)
  from y assms have "dropWhile isSpace x \<noteq> []" by simp
  then have "\<not> isSpace (hd (dropWhile isSpace x))" by (rule hd_dropWhile)
  moreover have "hd (dropWhile isSpace x) = hd (trim x)"
    using y h by simp
  ultimately have "\<not> isSpace (hd (trim x))" by simp
  with l show ?thesis by simp
qed

text \<open>
  Claim C6. From any state and for any input, \<^verbatim>\<open>setTheme\<close> gives round 1, four
  score cells of 0, an empty history, no left and no right item, pool count 0 and no
  error; the theme is the trimmed input, or \<^verbatim>\<open>cats\<close> when the trimmed input is empty.
  The trimmed input is the input without the white space and line terminators at its two
  ends.
\<close>

theorem setTheme_resets:
  "round_s (setTheme now x st) = 1 \<and>
   cell (score (setTheme now x st)) t s = 0 \<and>
   history (setTheme now x st) = [] \<and>
   leftGif (setTheme now x st) = None \<and>
   rightGif (setTheme now x st) = None \<and>
   poolCount (setTheme now x st) = 0 \<and>
   error (setTheme now x st) = None \<and>
   theme (setTheme now x st) = (if trim x = [] then (ascii ''cats'') else trim x) \<and>
   (\<exists>pre suf. x = pre @ trim x @ suf \<and> (\<forall>c \<in> set pre. isSpace c) \<and> (\<forall>c \<in> set suf. isSpace c)) \<and>
   (trim x \<noteq> [] \<longrightarrow> \<not> isSpace (hd (trim x)) \<and> \<not> isSpace (last (trim x)))"
  using trim_decomp [of x] trim_ends [of x]
  by (simp add: setTheme_def cell_zeroScore del: cell.simps)

theorem setTheme_resets_witness:
  "theme (setTheme 3 whiteSpaces votedState) = ascii ''cats'' \<and>
   theme (setTheme 3 ([65279, 32, 160] @ ascii ''Funny Dogs'' @ [8233, 12288, 10]) votedState)
     = ascii ''Funny Dogs'' \<and>
   theme (setTheme 3 [32, 8203, 133, 32] votedState) = [8203, 133] \<and>
   round_s (setTheme 3 whiteSpaces votedState) = 1 \<and>
   history (setTheme 3 whiteSpaces votedState) = [] \<and>
   cell (score (setTheme 3 whiteSpaces votedState)) Like SLeft = 0 \<and>
   cell (score votedState) Like SLeft = 1 \<and>
   \<not> isSpace (hd (ascii ''Funny Dogs'')) \<and> \<not> isSpace (last (ascii ''Funny Dogs''))"
proof -
  have t1: "trim whiteSpaces = []"
    by (simp add: whiteSpaces_def trim_def isSpace_def)
  have t2: "trim ([65279, 32, 160] @ ascii ''Funny Dogs'' @ [8233, 12288, 10]) = ascii ''Funny Dogs''"
    by (simp add: trim_def isSpace_def ascii_def)
  have t3: "trim [32, 8203, 133, 32] = [8203, 133]"
    by (simp add: trim_def isSpace_def)
  have ne: "ascii ''Funny Dogs'' \<noteq> []"
    by (simp add: ascii_def)
  have v: "cell (score votedState) Like SLeft = 1"
    by (simp add: votedState_def readyState_def initialState_def zeroScore_def)
  note a = setTheme_resets [where now = 3 and x = whiteSpaces and st = votedState
      and t = Like and s = SLeft]
  note b = setTheme_resets [where now = 3
      and x = "[65279, 32, 160] @ ascii ''Funny Dogs'' @ [8233, 12288, 10]" and st = votedState
      and t = Like and s = SLeft]
  note c = setTheme_resets [where now = 3 and x = "[32, 8203, 133, 32]" and st = votedState
      and t = Like and s = SLeft]
  from a have a1: "round_s (setTheme 3 whiteSpaces votedState) = 1"
    and a2: "cell (score (setTheme 3 whiteSpaces votedState)) Like SLeft = 0"
    and a3: "history (setTheme 3 whiteSpaces votedState) = []"
    and a4: "theme (setTheme 3 whiteSpaces votedState)
               = (if trim whiteSpaces = [] then ascii ''cats'' else trim whiteSpaces)"
    by blast+
  from b have b1: "theme (setTheme 3 ([65279, 32, 160] @ ascii ''Funny Dogs'' @ [8233, 12288, 10]) votedState)
               = (if trim ([65279, 32, 160] @ ascii ''Funny Dogs'' @ [8233, 12288, 10]) = []
                  then ascii ''cats''
                  else trim ([65279, 32, 160] @ ascii ''Funny Dogs'' @ [8233, 12288, 10]))"
    and b2: "trim ([65279, 32, 160] @ ascii ''Funny Dogs'' @ [8233, 12288, 10]) \<noteq> [] \<longrightarrow>
             \<not> isSpace (hd (trim ([65279, 32, 160] @ ascii ''Funny Dogs'' @ [8233, 12288, 10]))) \<and>
             \<not> isSpace (last (trim ([65279, 32, 160] @ ascii ''Funny Dogs'' @ [8233, 12288, 10])))"
    by blast+
  from c have d1: "theme (setTheme 3 [32, 8203, 133, 32] votedState)
               = (if trim [32, 8203, 133, 32] = [] then ascii ''cats'' else trim [32, 8203, 133, 32])"
    by blast
  from a4 [unfolded t1] have c1: "theme (setTheme 3 whiteSpaces votedState) = ascii ''cats''"
    by simp
  from b1 [unfolded t2] ne have c2: "theme (setTheme 3 ([65279, 32, 160] @ ascii ''Funny Dogs'' @ [8233, 12288, 10]) votedState)
     = ascii ''Funny Dogs''"
    by simp
  from b2 [unfolded t2] ne have c3: "\<not> isSpace (hd (ascii ''Funny Dogs'')) \<and> \<not> isSpace (last (ascii ''Funny Dogs''))"
    by simp
  from d1 [unfolded t3] have c4: "theme (setTheme 3 [32, 8203, 133, 32] votedState) = [8203, 133]"
    by simp
  show ?thesis
    by (rule conjI [OF c1 conjI [OF c2 conjI [OF c4 conjI [OF a1 conjI [OF a3 conjI [OF a2 conjI [OF v c3]]]]]]])
qed

section \<open>The pool cache\<close>

lemma normalizeAll_urls: "g \<in> set (normalizeAll e data) \<Longrightarrow> displayUrl g \<noteq> []"
  by (simp add: normalizeAll_def)

lemma fetchPool_settle_Inr:
  assumes "fetchPool_settle e th = Inr xs"
  shows "2 \<le> length xs \<and> (\<forall>g \<in> set xs. displayUrl g \<noteq> [])"
  using assms
  by (auto simp add: fetchPool_settle_def Let_def normalizeAll_urls
      split: if_splits fetch_outcome.splits body.splits)

lemma fetchPool_settle_fails:
  assumes "collaboratorFails e (fetch e (searchRequest e th))"
  shows "\<exists>t. fetchPool_settle e th = Inl t"
  using assms
  by (cases "(e, fetch e (searchRequest e th))" rule: collaboratorFails.cases)
    (auto simp add: fetchPool_settle_def Let_def)

text \<open>The first part of a call.\<close>

lemma ensurePool_begin_hit:
  assumes "poolCache w (poolKey e th) = Some xs" "2 \<le> length xs"
  shows "ensurePool_begin e th w = (Returned xs, w)"
  using assms by (simp add: ensurePool_begin_def Let_def)

lemma ensurePool_begin_miss:
  assumes "poolCache w (poolKey e th) = None \<or>
           (\<exists>xs. poolCache w (poolKey e th) = Some xs \<and> length xs < 2)"
  shows "ensurePool_begin e th w =
     (if apiKey e = []
      then (Threw (Error (ascii ''Missing GIPHY API key. Set VITE_GIPHY_API_KEY or REACT_APP_GIPHY_API_KEY.'')), w)
      else (Waiting, w\<lparr>requests := requests w @ [searchRequest e th]\<rparr>))"
  using assms by (auto simp add: ensurePool_begin_def fetchPool_send_def Let_def)

lemma ensurePool_begin_cache:
  "poolCache (snd (ensurePool_begin e th w)) = poolCache w"
  by (simp add: ensurePool_begin_def fetchPool_send_def Let_def)

lemma ensurePool_begin_requests:
  "length (requests (snd (ensurePool_begin e th w))) \<le> Suc (length (requests w))"
  by (simp add: ensurePool_begin_def fetchPool_send_def Let_def)

lemma ensurePool_begin_Returned:
  assumes "ensurePool_begin e th w = (Returned xs, w')"
  shows "w' = w \<and> poolCache w (poolKey e th) = Some xs \<and> 2 \<le> length xs"
  using assms
  by (auto simp add: ensurePool_begin_def fetchPool_send_def Let_def split: if_splits)

text \<open>The second part of a call.\<close>

lemma ensurePool_finish_Inl:
  assumes "ensurePool_finish e th w = (Inl t, w')"
  shows "w' = w"
  using assms by (auto simp add: ensurePool_finish_def Let_def split: sum.splits)

lemma ensurePool_finish_Inr:
  assumes "ensurePool_finish e th w = (Inr xs, w')"
  shows "2 \<le> length xs \<and> (\<forall>g \<in> set xs. displayUrl g \<noteq> []) \<and>
         w' = w\<lparr>poolCache := (poolCache w)(poolKey e th \<mapsto> xs)\<rparr>"
  using assms
  by (auto simp add: ensurePool_finish_def Let_def dest: fetchPool_settle_Inr split: sum.splits)

lemma ensurePool_finish_fails:
  assumes "collaboratorFails e (fetch e (searchRequest e th))"
  shows "\<exists>t. ensurePool_finish e th w = (Inl t, w)"
  using fetchPool_settle_fails [OF assms]
  by (auto simp add: ensurePool_finish_def Let_def)

lemma ensurePool_finish_other_keys:
  assumes "k \<noteq> poolKey e th"
  shows "poolCache (snd (ensurePool_finish e th w)) k = poolCache w k"
  using assms by (simp add: ensurePool_finish_def Let_def split: sum.splits)

lemma ensurePool_finish_requests:
  "requests (snd (ensurePool_finish e th w)) = requests w"
  by (simp add: ensurePool_finish_def Let_def split: sum.splits)

lemma ensurePool_finish_poolsOk:
  assumes "poolsOk (poolCache w)"
  shows "poolsOk (poolCache (snd (ensurePool_finish e th w)))"
proof (cases "fetchPool_settle e th")
  case (Inl t)
  then show ?thesis using assms by (simp add: ensurePool_finish_def Let_def)
next
  case (Inr xs)
  from fetchPool_settle_Inr [OF Inr] assms show ?thesis
    by (simp add: ensurePool_finish_def Let_def Inr poolsOk_def)
qed

text \<open>A call with no other call in between.\<close>

lemma ensurePool_hit:
  assumes "poolCache w (poolKey e th) = Some xs" "2 \<le> length xs"
  shows "ensurePool e th w = (Inr xs, w)"
  by (simp add: ensurePool_def ensurePool_begin_hit [OF assms])

lemma ensurePool_miss:
  assumes "poolCache w (poolKey e th) = None \<or>
           (\<exists>xs. poolCache w (poolKey e th) = Some xs \<and> length xs < 2)"
  shows "ensurePool e th w =
     (if apiKey e = []
      then (Inl (Error (ascii ''Missing GIPHY API key. Set VITE_GIPHY_API_KEY or REACT_APP_GIPHY_API_KEY.'')), w)
      else ensurePool_finish e th (w\<lparr>requests := requests w @ [searchRequest e th]\<rparr>))"
  by (simp add: ensurePool_def ensurePool_begin_miss [OF assms])

lemma ensurePool_cases:
  "(\<exists>xs. poolCache w (poolKey e th) = Some xs \<and> 2 \<le> length xs) \<or>
   (poolCache w (poolKey e th) = None \<or>
      (\<exists>xs. poolCache w (poolKey e th) = Some xs \<and> length xs < 2))"
  by (cases "poolCache w (poolKey e th)") auto

lemma ensurePool_Inl:
  assumes "ensurePool e th w = (Inl t, w')"
  shows "poolCache w' = poolCache w"
  using ensurePool_cases [of w e th]
proof
  assume "\<exists>xs. poolCache w (poolKey e th) = Some xs \<and> 2 \<le> length xs"
  with assms show ?thesis by (auto simp add: ensurePool_hit)
next
  assume m: "poolCache w (poolKey e th) = None \<or>
      (\<exists>xs. poolCache w (poolKey e th) = Some xs \<and> length xs < 2)"
  show ?thesis
  proof (cases "apiKey e = []")
    case True
    with assms show ?thesis by (simp add: ensurePool_miss [OF m])
  next
    case False
    with assms have "ensurePool_finish e th (w\<lparr>requests := requests w @ [searchRequest e th]\<rparr>) = (Inl t, w')"
      by (simp add: ensurePool_miss [OF m])
    from ensurePool_finish_Inl [OF this] show ?thesis by simp
  qed
qed

lemma ensurePool_Inr:
  assumes "ensurePool e th w = (Inr xs, w')"
  shows "2 \<le> length xs \<and> poolCache w' (poolKey e th) = Some xs"
  using ensurePool_cases [of w e th]
proof
  assume "\<exists>xs. poolCache w (poolKey e th) = Some xs \<and> 2 \<le> length xs"
  with assms show ?thesis by (auto simp add: ensurePool_hit)
next
  assume m: "poolCache w (poolKey e th) = None \<or>
      (\<exists>xs. poolCache w (poolKey e th) = Some xs \<and> length xs < 2)"
  show ?thesis
  proof (cases "apiKey e = []")
    case True
    with assms show ?thesis by (simp add: ensurePool_miss [OF m])
  next
    case False
    with assms have "ensurePool_finish e th (w\<lparr>requests := requests w @ [searchRequest e th]\<rparr>) = (Inr xs, w')"
      by (simp add: ensurePool_miss [OF m])
    from ensurePool_finish_Inr [OF this] show ?thesis by simp
  qed
qed

lemma ensurePool_requests:
  "length (requests (snd (ensurePool e th w))) \<le> Suc (length (requests w))"
  using ensurePool_cases [of w e th]
proof
  assume "\<exists>xs. poolCache w (poolKey e th) = Some xs \<and> 2 \<le> length xs"
  then show ?thesis by (auto simp add: ensurePool_hit)
next
  assume m: "poolCache w (poolKey e th) = None \<or>
      (\<exists>xs. poolCache w (poolKey e th) = Some xs \<and> length xs < 2)"
  show ?thesis
    by (simp add: ensurePool_miss [OF m] ensurePool_finish_requests)
qed

lemma ensurePool_poolsOk:
  assumes "poolsOk (poolCache w)"
  shows "poolsOk (poolCache (snd (ensurePool e th w)))"
  using ensurePool_cases [of w e th]
proof
  assume "\<exists>xs. poolCache w (poolKey e th) = Some xs \<and> 2 \<le> length xs"
  with assms show ?thesis by (auto simp add: ensurePool_hit)
next
  assume m: "poolCache w (poolKey e th) = None \<or>
      (\<exists>xs. poolCache w (poolKey e th) = Some xs \<and> length xs < 2)"
  have "poolsOk (poolCache (w\<lparr>requests := requests w @ [searchRequest e th]\<rparr>))"
    using assms by simp
  from ensurePool_finish_poolsOk [OF this] assms show ?thesis
    by (simp add: ensurePool_miss [OF m])
qed

lemma ensurePool_map_le:
  assumes "poolsOk (poolCache w)"
  shows "poolCache w \<subseteq>\<^sub>m poolCache (snd (ensurePool e th w))"
proof (cases "poolCache w (poolKey e th)")
  case None
  then have m: "poolCache w (poolKey e th) = None \<or>
      (\<exists>xs. poolCache w (poolKey e th) = Some xs \<and> length xs < 2)" by simp
  have "poolCache w k = poolCache (snd (ensurePool e th w)) k" if "k \<in> dom (poolCache w)" for k
  proof -
    from that None have "k \<noteq> poolKey e th" by auto
    then show ?thesis
      by (simp add: ensurePool_miss [OF m] ensurePool_finish_other_keys)
  qed
  then show ?thesis by (simp add: map_le_def)
next
  case (Some xs)
  with assms have "2 \<le> length xs" by (simp add: poolsOk_def)
  with Some show ?thesis by (simp add: ensurePool_hit)
qed

lemma ensurePool_fails:
  assumes "poolCache w (poolKey e th) = None"
    and "apiKey e = [] \<or> collaboratorFails e (fetch e (searchRequest e th))"
  shows "\<exists>t. fst (ensurePool e th w) = Inl t"
proof -
  from assms(1) have m: "poolCache w (poolKey e th) = None \<or>
      (\<exists>xs. poolCache w (poolKey e th) = Some xs \<and> length xs < 2)" by simp
  show ?thesis
  proof (cases "apiKey e = []")
    case True
    then show ?thesis by (simp add: ensurePool_miss [OF m])
  next
    case False
    with assms(2) have "collaboratorFails e (fetch e (searchRequest e th))" by simp
    from ensurePool_finish_fails [OF this, of "w\<lparr>requests := requests w @ [searchRequest e th]\<rparr>"] False
    show ?thesis by (auto simp add: ensurePool_miss [OF m])
  qed
qed

lemma ensurePool_succeeds:
  assumes "apiKey e \<noteq> []"
    and "fetch e (searchRequest e th) = Response True status statusText (Json (Some data))"
    and "2 \<le> length (normalizeAll e data)"
  shows "\<exists>pool w1. ensurePool e th w = (Inr pool, w1)"
  using ensurePool_cases [of w e th]
proof
  assume "\<exists>xs. poolCache w (poolKey e th) = Some xs \<and> 2 \<le> length xs"
  then show ?thesis by (auto simp add: ensurePool_hit)
next
  assume m: "poolCache w (poolKey e th) = None \<or>
      (\<exists>xs. poolCache w (poolKey e th) = Some xs \<and> length xs < 2)"
  from assms show ?thesis
    by (simp add: ensurePool_miss [OF m] ensurePool_finish_def fetchPool_settle_def Let_def)
qed

text \<open>Calls that overlap.\<close>

lemma poolsOk_schedule_step:
  assumes "poolsOk (poolCache (fst s))"
  shows "poolsOk (poolCache (fst (schedule_step s ev)))"
proof (cases s)
  case (Pair w waiting)
  show ?thesis
  proof (cases ev)
    case (Call e th)
    have "fst (schedule_step (w, waiting) (Call e th)) = snd (ensurePool_begin e th w)"
      by (cases "ensurePool_begin e th w"; cases "fst (ensurePool_begin e th w)") auto
    with assms Pair Call show ?thesis by (simp add: ensurePool_begin_cache)
  next
    case (Settle i)
    with assms Pair show ?thesis by (simp add: ensurePool_finish_poolsOk)
  qed
qed

lemma poolsOk_schedule:
  "poolsOk (poolCache (fst s)) \<Longrightarrow> poolsOk (poolCache (fst (schedule s evs)))"
  by (induction s evs rule: schedule.induct) (simp_all add: poolsOk_schedule_step del: schedule_step.simps)

lemma poolsOk_newWorld: "poolsOk (poolCache newWorld)"
  by (simp add: poolsOk_def newWorld_def)

text \<open>
  The definitions that a concrete call unfolds to.
\<close>

lemmas eval_defs =
  ensurePool_def ensurePool_begin_def ensurePool_finish_def fetchPool_send_def
  fetchPool_settle_def poolKey_def searchRequest_def normalizeAll_def normalizeGif_def
  goodEnv_def downEnv_def sparseEnv_def spellingEnv_def newWorld_def
  rawA_def rawB_def rawNoUrl_def gifA_def gifB_def
  trim_def isSpace_def asciiLower_def ascii_def Let_def enumerate_eq_zip showNat.simps

text \<open>
  With a credential and a collaborator that returns at least two usable items, a call
  with no other call in between succeeds (\<open>ensurePool_succeeds\<close>).

  Claim C4, as stated for any two calls, fails for two calls that overlap: the provider
  starts two loads of the theme \<^verbatim>\<open>cats\<close> when it mounts, the second before the
  response of the first has arrived, and both find the cache empty and fetch.
\<close>

theorem ensure_overlap_fetches_twice:
  "fst (ensurePool goodEnv (ascii ''cats'') newWorld) = Inr [gifA, gifB] \<and>
   requests (fst (schedule (newWorld, [])
      [Call goodEnv (ascii ''cats''), Call goodEnv (ascii ''cats''), Settle 0, Settle 0]))
     = [searchRequest goodEnv (ascii ''cats''), searchRequest goodEnv (ascii ''cats'')]"
  by (simp add: eval_defs)

text \<open>
  Claim C4, amended. When a call of \<^verbatim>\<open>ensurePool\<close> has returned its list, a call
  with the same normalised key that starts afterwards returns the same list before it
  reaches the fetch and changes nothing: neither the cache nor the list of requests sent,
  whatever the collaborator would answer now. The first call sent at most one request, so
  the two calls together fetch at most once.
\<close>

theorem ensure_twice_fetches_once:
  assumes "poolKey e2 th2 = poolKey e1 th1"
    and "ensurePool e1 th1 w = (Inr pool, w1)"
  shows "ensurePool_begin e2 th2 w1 = (Returned pool, w1) \<and>
         ensurePool e2 th2 w1 = (Inr pool, w1) \<and>
         length (requests w1) \<le> Suc (length (requests w))"
proof -
  from ensurePool_Inr [OF assms(2)]
  have p: "poolCache w1 (poolKey e2 th2) = Some pool" "2 \<le> length pool"
    by (simp_all add: assms(1))
  have "ensurePool_begin e2 th2 w1 = (Returned pool, w1)"
    by (rule ensurePool_begin_hit [OF p])
  moreover have "ensurePool e2 th2 w1 = (Inr pool, w1)"
    by (rule ensurePool_hit [OF p])
  moreover have "length (requests w1) \<le> Suc (length (requests w))"
    using ensurePool_requests [of e1 th1 w] by (simp add: assms(2))
  ultimately show ?thesis by simp
qed

theorem ensure_twice_fetches_once_witness:
  "fst (ensurePool goodEnv (ascii '' Cats '') newWorld) = Inr [gifA, gifB] \<and>
   ensurePool_begin downEnv (ascii ''CATS'') (snd (ensurePool goodEnv (ascii '' Cats '') newWorld))
     = (Returned [gifA, gifB], snd (ensurePool goodEnv (ascii '' Cats '') newWorld)) \<and>
   ensurePool downEnv (ascii ''CATS'') (snd (ensurePool goodEnv (ascii '' Cats '') newWorld))
     = (Inr [gifA, gifB], snd (ensurePool goodEnv (ascii '' Cats '') newWorld)) \<and>
   length (requests (snd (ensurePool goodEnv (ascii '' Cats '') newWorld))) \<le> Suc (length (requests newWorld))"
proof -
  have key: "poolKey downEnv (ascii ''CATS'') = poolKey goodEnv (ascii '' Cats '')"
    by (simp add: eval_defs)
  have res: "fst (ensurePool goodEnv (ascii '' Cats '') newWorld) = Inr [gifA, gifB]"
    by (simp add: eval_defs)
  then have first: "ensurePool goodEnv (ascii '' Cats '') newWorld
      = (Inr [gifA, gifB], snd (ensurePool goodEnv (ascii '' Cats '') newWorld))"
    by (simp add: prod_eq_iff)
  show ?thesis
    using ensure_twice_fetches_once [OF key first] res by simp
qed

text \<open>
  Claim C9, as stated, fails in its last part for two calls that overlap on one key: each
  stores its pool when its response arrives, and the later one replaces the entry of the
  earlier. Here the theme goes from \<^verbatim>\<open>cats\<close> to \<^verbatim>\<open>Cats\<close> while the first
  response is on its way.
\<close>

theorem overlap_replaces_entry:
  "poolCache (fst (schedule (newWorld, [])
      [Call spellingEnv (ascii ''cats''), Call spellingEnv (ascii ''Cats''), Settle 0]))
      (ascii ''cats|pg'') = Some [gifA, gifB] \<and>
   poolCache (fst (schedule (newWorld, [])
      [Call spellingEnv (ascii ''cats''), Call spellingEnv (ascii ''Cats''), Settle 0, Settle 0]))
      (ascii ''cats|pg'') = Some [gifB, gifA] \<and>
   [gifA, gifB] \<noteq> [gifB, gifA]"
  by (simp add: eval_defs)

text \<open>
  Claim C9, amended. In a cache built from the empty map by calls of
  \<^verbatim>\<open>ensurePool\<close> that may overlap in any way, every entry has at least two items,
  each with a display URL, before and after each part of a further call. The first part of
  a call never writes; the second part writes under the key of the call only, and when it
  fails (as it does when the collaborator fails or fewer than two of its items have a
  display URL) it leaves the world exactly as it was. A call with no other call in between
  leaves every existing entry as it is (the map before is contained in the map after),
  leaves the map as it was when it fails, and does fail on a key that is not cached when
  the credential is missing or the collaborator fails.
\<close>

theorem cache_insert_only:
  assumes "w = fst (schedule (newWorld, []) evs)"
  shows "poolsOk (poolCache w) \<and>
         poolCache (snd (ensurePool_begin e th w)) = poolCache w \<and>
         poolsOk (poolCache (snd (ensurePool_finish e th w))) \<and>
         (\<forall>k. k \<noteq> poolKey e th \<longrightarrow> poolCache (snd (ensurePool_finish e th w)) k = poolCache w k) \<and>
         ((\<exists>t. fst (ensurePool_finish e th w) = Inl t) \<longrightarrow> snd (ensurePool_finish e th w) = w) \<and>
         (collaboratorFails e (fetch e (searchRequest e th)) \<longrightarrow>
            (\<exists>t. ensurePool_finish e th w = (Inl t, w))) \<and>
         poolsOk (poolCache (snd (ensurePool e th w))) \<and>
         poolCache w \<subseteq>\<^sub>m poolCache (snd (ensurePool e th w)) \<and>
         ((\<exists>t. fst (ensurePool e th w) = Inl t) \<longrightarrow>
            poolCache (snd (ensurePool e th w)) = poolCache w) \<and>
         (poolCache w (poolKey e th) = None \<and>
          (apiKey e = [] \<or> collaboratorFails e (fetch e (searchRequest e th)))
            \<longrightarrow> (\<exists>t. fst (ensurePool e th w) = Inl t) \<and>
                 poolCache (snd (ensurePool e th w)) = poolCache w)"
proof -
  have ok: "poolsOk (poolCache w)"
    unfolding assms using poolsOk_schedule [of "(newWorld, [])" evs] poolsOk_newWorld by simp
  have fin_fail: "snd (ensurePool_finish e th w) = w" if "\<exists>t. fst (ensurePool_finish e th w) = Inl t"
  proof -
    from that obtain t where "fst (ensurePool_finish e th w) = Inl t" ..
    then have "ensurePool_finish e th w = (Inl t, snd (ensurePool_finish e th w))"
      by (simp add: prod_eq_iff)
    then show ?thesis by (rule ensurePool_finish_Inl)
  qed
  have run_fail: "poolCache (snd (ensurePool e th w)) = poolCache w"
    if "\<exists>t. fst (ensurePool e th w) = Inl t"
  proof -
    from that obtain t where "fst (ensurePool e th w) = Inl t" ..
    then have "ensurePool e th w = (Inl t, snd (ensurePool e th w))"
      by (simp add: prod_eq_iff)
    then show ?thesis by (rule ensurePool_Inl)
  qed
  have miss: "\<exists>t. fst (ensurePool e th w) = Inl t"
    if "poolCache w (poolKey e th) = None \<and>
        (apiKey e = [] \<or> collaboratorFails e (fetch e (searchRequest e th)))"
    using that ensurePool_fails [of w e th] by blast
  show ?thesis
    using ok ensurePool_begin_cache [of e th w] ensurePool_finish_poolsOk [OF ok, of e th]
      ensurePool_finish_other_keys [of _ e th w] fin_fail
      ensurePool_finish_fails [of e th w] ensurePool_poolsOk [OF ok, of e th]
      ensurePool_map_le [OF ok, of e th] run_fail miss
    by blast
qed

theorem cache_insert_only_witness:
  "poolCache (fst (schedule (newWorld, []) [Call goodEnv (ascii '' Cats ''), Settle 0])) (ascii ''cats|pg'')
     = Some [gifA, gifB] \<and>
   poolsOk (poolCache (fst (schedule (newWorld, []) [Call goodEnv (ascii '' Cats ''), Settle 0]))) \<and>
   ensurePool_finish downEnv (ascii ''dogs'') (fst (schedule (newWorld, []) [Call goodEnv (ascii '' Cats ''), Settle 0]))
     = (Inl (Error (ascii ''GIPHY error: 500 Internal Server Error'')),
        fst (schedule (newWorld, []) [Call goodEnv (ascii '' Cats ''), Settle 0])) \<and>
   fst (ensurePool downEnv (ascii ''dogs'') (fst (schedule (newWorld, []) [Call goodEnv (ascii '' Cats ''), Settle 0])))
     = Inl (Error (ascii ''GIPHY error: 500 Internal Server Error'')) \<and>
   poolCache (snd (ensurePool downEnv (ascii ''dogs'')
       (fst (schedule (newWorld, []) [Call goodEnv (ascii '' Cats ''), Settle 0]))))
     = poolCache (fst (schedule (newWorld, []) [Call goodEnv (ascii '' Cats ''), Settle 0]))"
proof -
  let ?w = "fst (schedule (newWorld, []) [Call goodEnv (ascii '' Cats ''), Settle 0])"
  have entry: "poolCache ?w (ascii ''cats|pg'') = Some [gifA, gifB]"
    by (simp add: eval_defs)
  have fin: "fst (ensurePool_finish downEnv (ascii ''dogs'') ?w)
      = Inl (Error (ascii ''GIPHY error: 500 Internal Server Error''))"
    by (simp add: eval_defs)
  have res: "fst (ensurePool downEnv (ascii ''dogs'') ?w)
      = Inl (Error (ascii ''GIPHY error: 500 Internal Server Error''))"
    by (simp add: eval_defs)
  have miss: "poolCache ?w (poolKey downEnv (ascii ''dogs'')) = None"
    by (simp add: eval_defs)
  have down: "collaboratorFails downEnv (fetch downEnv (searchRequest downEnv (ascii ''dogs'')))"
    by (simp add: eval_defs)
  note t = cache_insert_only [OF refl, where evs = "[Call goodEnv (ascii '' Cats ''), Settle 0]"
      and e = downEnv and th = "ascii ''dogs''"]
  from t have ok: "poolsOk (poolCache ?w)" by (rule conjunct1)
  from t fin have same: "snd (ensurePool_finish downEnv (ascii ''dogs'') ?w) = ?w" by blast
  from t miss down have unchanged: "poolCache (snd (ensurePool downEnv (ascii ''dogs'') ?w)) = poolCache ?w"
    by blast
  from fin same have fin': "ensurePool_finish downEnv (ascii ''dogs'') ?w
      = (Inl (Error (ascii ''GIPHY error: 500 Internal Server Error'')), ?w)"
    by (simp add: prod_eq_iff)
  show ?thesis
    by (rule conjI [OF entry conjI [OF ok conjI [OF fin' conjI [OF res unchanged]]]])
qed

section \<open>Pairing\<close>

lemma randomInt_range:
  assumes "0 < n"
  shows "0 \<le> randomInt 0 n r \<and> randomInt 0 n r < n"
  using assms
proof (transfer, goal_cases)
  case (1 n r)
  then have "0 \<le> r * of_int n" and "r * of_int n < of_int n"
    by simp_all
  then show ?case by (simp add: floor_less_iff)
qed

lemma redraw_Some:
  assumes "redraw rnd k n i j = Some j'"
  shows "j' \<noteq> i \<and> (0 < n \<and> 0 \<le> j \<and> j < n \<longrightarrow> 0 \<le> j' \<and> j' < n)"
  using assms
proof (induction rnd k n i j j' rule: redraw.raw_induct [rotated 1, consumes 1, case_names step])
  case (step redraw rnd k n i j j')
  show ?case
  proof (cases "j = i")
    case True
    with step(2) have "redraw rnd (Suc k) n i (randomInt 0 n (rnd k)) = Some j'"
      by simp
    from step(1) [OF this] randomInt_range [of n "rnd k"] show ?thesis
      by blast
  next
    case False
    with step(2) show ?thesis by simp
  qed
qed

lemma redraw_returns:
  assumes "j \<noteq> i \<or> randomInt 0 n (rnd (k + m)) \<noteq> i"
  shows "\<exists>j'. redraw rnd k n i j = Some j'"
  using assms
proof (induction m arbitrary: k j)
  case 0
  then show ?case
    by (subst redraw.simps, subst redraw.simps) auto
next
  case (Suc m)
  show ?case
  proof (cases "j = i")
    case True
    with Suc.prems have "randomInt 0 n (rnd (Suc k + m)) \<noteq> i" by simp
    then have "\<exists>j'. redraw rnd (Suc k) n i (randomInt 0 n (rnd k)) = Some j'"
      by (intro Suc.IH) simp
    with True show ?thesis by (subst redraw.simps) simp
  next
    case False
    then show ?thesis by (subst redraw.simps) simp
  qed
qed

lemma redraw_diverges:
  assumes "\<forall>m. randomInt 0 n (rnd (k + m)) = i"
  shows "redraw rnd k n i i = None"
proof (rule ccontr)
  assume "redraw rnd k n i i \<noteq> None"
  then obtain j' where s: "redraw rnd k n i i = Some j'" by auto
  have "redraw rnd k n i j = Some j' \<Longrightarrow> j = i \<Longrightarrow> (\<forall>m. randomInt 0 n (rnd (k + m)) = i) \<Longrightarrow> False" for j
  proof (induction rnd k n i j j' rule: redraw.raw_induct [rotated 1, consumes 1, case_names step])
    case (step redraw rnd k n i j j')
    from step(2,3) have r: "redraw rnd (Suc k) n i (randomInt 0 n (rnd k)) = Some j'" by simp
    have a: "randomInt 0 n (rnd k) = i" using step(4) [rule_format, of 0] by simp
    have b: "\<forall>m. randomInt 0 n (rnd (Suc k + m)) = i" using step(4) [rule_format, of "Suc _"] by simp
    from step(1) [OF r a b] show ?case .
  qed
  from this [OF s refl assms] show False .
qed

lemma pickTwoDistinct_unfold:
  assumes "2 \<le> length arr"
  shows "pickTwoDistinct rnd arr =
      (case redraw rnd 2 (int (length arr)) (randomInt 0 (int (length arr)) (rnd 0))
              (randomInt 0 (int (length arr)) (rnd 1)) of
         None \<Rightarrow> None
       | Some j \<Rightarrow>
           Some (Some (arr ! nat (randomInt 0 (int (length arr)) (rnd 0)), arr ! nat j)))"
proof -
  from assms have "\<not> length arr < 2" by simp
  then show ?thesis by (simp add: pickTwoDistinct_def Let_def)
qed

lemma pickTwoDistinct_returns:
  assumes "2 \<le> length arr"
    and "randomInt 0 (int (length arr)) (rnd (Suc m)) \<noteq> randomInt 0 (int (length arr)) (rnd 0)"
  shows "\<exists>x y. pickTwoDistinct rnd arr = Some (Some (x, y))"
proof -
  let ?n = "int (length arr)"
  let ?i = "randomInt 0 ?n (rnd 0)"
  have "\<exists>j'. redraw rnd 2 ?n ?i (randomInt 0 ?n (rnd 1)) = Some j'"
  proof (cases m)
    case 0
    with assms(2) show ?thesis by (intro redraw_returns [where m = 0]) simp
  next
    case (Suc m')
    show ?thesis
    proof (cases m')
      case 0
      with Suc assms(2) show ?thesis
        by (intro redraw_returns [where m = 0]) (simp add: numeral_2_eq_2)
    next
      case (Suc m'')
      with \<open>m = Suc m'\<close> assms(2) show ?thesis
        by (intro redraw_returns [where m = "Suc m''"]) (simp add: numeral_2_eq_2)
    qed
  qed
  then obtain j' where "redraw rnd 2 ?n ?i (randomInt 0 ?n (rnd 1)) = Some j'" ..
  then show ?thesis
    by (simp add: pickTwoDistinct_unfold [OF assms(1)])
qed

lemma pickTwoDistinct_hangs:
  assumes "2 \<le> length arr"
    and "\<forall>k. randomInt 0 (int (length arr)) (rnd k) = c"
  shows "pickTwoDistinct rnd arr = None"
proof -
  have "redraw rnd 2 (int (length arr)) c c = None"
    by (rule redraw_diverges) (simp add: assms(2))
  then show ?thesis
    by (simp add: pickTwoDistinct_unfold [OF assms(1)] assms(2))
qed

text \<open>
  Claim C5. \<^verbatim>\<open>pickTwoDistinct\<close> returns \<^verbatim>\<open>null\<close> on a list of length 0 or 1.
  On a list of length at least 2 it never returns \<^verbatim>\<open>null\<close>, and a pair it returns
  is made of the elements at two different positions of the list. (It returns as soon as
  one draw differs from the first index, \<open>pickTwoDistinct_returns\<close>, and does not
  return when none does, \<open>pickTwoDistinct_hangs\<close>.)
\<close>

theorem pickTwoDistinct_distinct:
  "(length arr < 2 \<longrightarrow> pickTwoDistinct rnd arr = Some None) \<and>
   (2 \<le> length arr \<longrightarrow>
      pickTwoDistinct rnd arr \<noteq> Some None \<and>
      (\<forall>x y. pickTwoDistinct rnd arr = Some (Some (x, y)) \<longrightarrow>
         (\<exists>i j. i < length arr \<and> j < length arr \<and> i \<noteq> j \<and> x = arr ! i \<and> y = arr ! j)))"
proof (intro conjI impI allI)
  assume "length arr < 2"
  then show "pickTwoDistinct rnd arr = Some None" by (simp add: pickTwoDistinct_def)
next
  assume "2 \<le> length arr"
  then show "pickTwoDistinct rnd arr \<noteq> Some None"
    by (simp add: pickTwoDistinct_unfold split: option.split)
next
  fix x y
  assume len: "2 \<le> length arr" and p: "pickTwoDistinct rnd arr = Some (Some (x, y))"
  let ?n = "int (length arr)"
  let ?i = "randomInt 0 ?n (rnd 0)"
  from len have n: "0 < ?n" by linarith
  note unf = pickTwoDistinct_unfold [OF len, of rnd]
  from p obtain j where r: "redraw rnd 2 ?n ?i (randomInt 0 ?n (rnd 1)) = Some j"
    and x: "x = arr ! nat ?i" and y: "y = arr ! nat j"
    unfolding unf by (cases "redraw rnd 2 ?n ?i (randomInt 0 ?n (rnd 1))") simp_all
  have i: "0 \<le> ?i \<and> ?i < ?n"
    by (rule randomInt_range [OF n])
  have j0: "0 \<le> randomInt 0 ?n (rnd 1) \<and> randomInt 0 ?n (rnd 1) < ?n"
    by (rule randomInt_range [OF n])
  from redraw_Some [OF r] n j0 have j: "j \<noteq> ?i" "0 \<le> j" "j < ?n" by blast+
  have "nat ?i < length arr" "nat j < length arr" "nat ?i \<noteq> nat j"
    using i j by linarith+
  with x y show "\<exists>i j. i < length arr \<and> j < length arr \<and> i \<noteq> j \<and> x = arr ! i \<and> y = arr ! j"
    by blast
qed

theorem pickTwoDistinct_distinct_witness:
  "pickTwoDistinct (random goodEnv) ([] :: GifItem list) = Some None \<and>
   pickTwoDistinct (random goodEnv) [gifA] = Some None \<and>
   pickTwoDistinct (random goodEnv) [gifA, gifB] = Some (Some (gifA, gifB)) \<and>
   (\<exists>i j. i < length [gifA, gifB] \<and> j < length [gifA, gifB] \<and> i \<noteq> j \<and>
      gifA = [gifA, gifB] ! i \<and> gifB = [gifA, gifB] ! j)"
proof -
  have p: "pickTwoDistinct (random goodEnv) [gifA, gifB] = Some (Some (gifA, gifB))"
    by code_simp
  have l0: "length ([] :: GifItem list) < 2" and l1: "length [gifA] < 2" and l2: "2 \<le> length [gifA, gifB]"
    by simp_all
  note a = pickTwoDistinct_distinct [where arr = "[] :: GifItem list" and rnd = "random goodEnv",
      THEN conjunct1, THEN mp, OF l0]
  note b = pickTwoDistinct_distinct [where arr = "[gifA]" and rnd = "random goodEnv",
      THEN conjunct1, THEN mp, OF l1]
  note c = pickTwoDistinct_distinct [where arr = "[gifA, gifB]" and rnd = "random goodEnv",
      THEN conjunct2, THEN mp, OF l2, THEN conjunct2, THEN spec, THEN spec, THEN mp, OF p]
  show ?thesis by (rule conjI [OF a conjI [OF b conjI [OF p c]]])
qed

section \<open>Loading a round\<close>

text \<open>
  The failures of the \<^verbatim>\<open>try\<close> block: an empty theme, and the errors of
  \<^verbatim>\<open>ensurePool\<close> on a key that is not cached (no credential, an upstream error
  status, fewer than two usable items), each with its message.
\<close>

lemma load_empty_theme:
  assumes "trim (theme state) = []"
  shows "loadNextPair_try e state w = Some (Inl (Error (ascii ''Theme is empty. Type something.'')), w)"
  using assms by (simp add: loadNextPair_try_def)

lemma load_ensure_fails:
  assumes "trim (theme state) \<noteq> []"
    and "ensurePool e (trim (theme state)) w = (Inl err, w')"
  shows "loadNextPair_try e state w = Some (Inl err, w')"
  using assms by (simp add: loadNextPair_try_def)

lemma ensure_missing_credential:
  assumes "poolCache w (poolKey e th) = None" and "apiKey e = []"
  shows "ensurePool e th w =
     (Inl (Error (ascii ''Missing GIPHY API key. Set VITE_GIPHY_API_KEY or REACT_APP_GIPHY_API_KEY.'')), w)"
  using assms by (simp add: ensurePool_miss)

lemma ensure_upstream_error:
  assumes "poolCache w (poolKey e th) = None" and "apiKey e \<noteq> []"
    and "fetch e (searchRequest e th) = Response False status statusText b"
  shows "ensurePool e th w =
     (Inl (Error ((ascii ''GIPHY error: '') @ showNat status @ (ascii '' '') @ statusText)),
      w\<lparr>requests := requests w @ [searchRequest e th]\<rparr>)"
  using assms by (simp add: ensurePool_miss ensurePool_finish_def fetchPool_settle_def)

lemma ensure_insufficient:
  assumes "poolCache w (poolKey e th) = None" and "apiKey e \<noteq> []"
    and "fetch e (searchRequest e th) = Response True status statusText (Json d)"
    and "length (normalizeAll e (case d of Some xs \<Rightarrow> xs | None \<Rightarrow> [])) < 2"
  shows "ensurePool e th w =
     (Inl (Error (ascii ''Not enough GIF results for that theme. Try another theme.'')),
      w\<lparr>requests := requests w @ [searchRequest e th]\<rparr>)"
  using assms by (simp add: ensurePool_miss ensurePool_finish_def fetchPool_settle_def Let_def)

text \<open>
  Claim C3. When \<^verbatim>\<open>loadNextPair\<close> fails, that is when its \<^verbatim>\<open>try\<close> block
  throws, the resulting state has the message of the thrown value as its error and the
  loading flag cleared, and the left and right items, the score, the history and the round
  are those of the state before; the state is the old one with these two fields set.
\<close>

theorem load_failure_keeps_board:
  assumes "loadNextPair_try e state w = Some (Inl err, w')"
  shows "\<exists>st'. loadNextPair e state (cur, w) = Some (st', w') \<and>
           error st' = Some (message err) \<and> isLoading st' = False \<and>
           leftGif st' = leftGif cur \<and> rightGif st' = rightGif cur \<and>
           score st' = score cur \<and> history st' = history cur \<and> round_s st' = round_s cur \<and>
           st' = cur\<lparr>isLoading := False, error := Some (message err)\<rparr>"
  using assms by (simp add: loadNextPair_def)

theorem load_failure_keeps_board_witness:
  "loadNextPair_try sparseEnv votedState newWorld
     = Some (Inl (Error (ascii ''Not enough GIF results for that theme. Try another theme.'')),
             newWorld\<lparr>requests := [searchRequest sparseEnv (ascii ''cats'')]\<rparr>) \<and>
   (\<exists>st'. loadNextPair sparseEnv votedState (votedState, newWorld)
            = Some (st', newWorld\<lparr>requests := [searchRequest sparseEnv (ascii ''cats'')]\<rparr>) \<and>
      error st' = Some (ascii ''Not enough GIF results for that theme. Try another theme.'') \<and>
      isLoading st' = False \<and>
      leftGif st' = Some gifA \<and> rightGif st' = Some gifB \<and>
      score st' = score votedState \<and> history st' = history votedState \<and> round_s st' = 2)"
proof -
  have th: "trim (theme votedState) = (ascii ''cats'')"
    by (simp add: votedState_def readyState_def initialState_def trim_def isSpace_def ascii_def)
  have ne: "ascii ''cats'' \<noteq> []"
    by (simp add: ascii_def)
  have miss: "poolCache newWorld (poolKey sparseEnv (ascii ''cats'')) = None"
    by (simp add: newWorld_def)
  have key: "apiKey sparseEnv \<noteq> []"
    by (simp add: sparseEnv_def goodEnv_def ascii_def)
  have resp: "fetch sparseEnv (searchRequest sparseEnv (ascii ''cats''))
      = Response True 200 (ascii ''OK'') (Json (Some [rawA, rawNoUrl]))"
    by (simp add: sparseEnv_def)
  have few: "length (normalizeAll sparseEnv (case Some [rawA, rawNoUrl] of Some xs \<Rightarrow> xs | None \<Rightarrow> [])) < 2"
    by (simp add: normalizeAll_def normalizeGif_def rawA_def rawNoUrl_def enumerate_eq_zip ascii_def)
  have ens: "ensurePool sparseEnv (ascii ''cats'') newWorld =
     (Inl (Error (ascii ''Not enough GIF results for that theme. Try another theme.'')),
      newWorld\<lparr>requests := [searchRequest sparseEnv (ascii ''cats'')]\<rparr>)"
    using ensure_insufficient [OF miss key resp few] by (simp add: newWorld_def)
  have tr: "loadNextPair_try sparseEnv votedState newWorld
     = Some (Inl (Error (ascii ''Not enough GIF results for that theme. Try another theme.'')),
             newWorld\<lparr>requests := [searchRequest sparseEnv (ascii ''cats'')]\<rparr>)"
    by (rule load_ensure_fails) (simp_all add: th ens ne)
  have vals: "leftGif votedState = Some gifA" "rightGif votedState = Some gifB" "round_s votedState = 2"
    by (simp_all add: votedState_def readyState_def initialState_def)
  from load_failure_keeps_board [OF tr, of votedState] tr vals
  show ?thesis by auto
qed

end
